theory Spec2Isabelle
  imports Main
begin

section \<open>JavaScript numbers\<close>

text \<open>
  The values of the type \<^verbatim>\<open>number\<close> that literals written with digits, initial variables
  and the two operators of the languages produce: the integers, the two infinities and
  \<^verbatim>\<open>NaN\<close>. Nothing in the type excludes a negative value. The interpreters compute with
  IEEE 754 doubles: the result of \<^verbatim>\<open>+\<close> and of \<^verbatim>\<open>-\<close> is the exact result rounded to the
  nearest double, to the one with the even mantissa when two are equally near, and to an
  infinity when the rounded magnitude reaches \<open>2^1024\<close>. \<open>Finite i\<close> stands for the double
  of value \<open>i\<close>; fractions, which no digits, sum or difference of integers give, and the
  sign of zero are left out.
\<close>

datatype number = Finite int | PositiveInfinity | NegativeInfinity | NaN

text \<open>
  The distance between neighbouring doubles at the magnitude \<open>a\<close>: 1 below \<open>2^53\<close>, and
  twice as much each time the magnitude doubles.
\<close>

function spacing :: "nat \<Rightarrow> nat" where
  "spacing a = (if a < 2 ^ 53 then 1 else 2 * spacing (a div 2))"
  by pat_completeness auto

termination
  by (relation "measure id") auto

declare spacing.simps [simp del]

definition roundMagnitude :: "nat \<Rightarrow> nat" where
  "roundMagnitude a =
     (let u = spacing a;
          q = a div u;
          r = a mod u
      in if 2 * r < u then q * u
         else if u < 2 * r then (q + 1) * u
         else if even q then q * u
         else (q + 1) * u)"

definition roundDouble :: "int \<Rightarrow> number" where
  "roundDouble i =
     (let a = roundMagnitude (nat \<bar>i\<bar>) in
      if 2 ^ 1024 \<le> a then (if i < 0 then NegativeInfinity else PositiveInfinity)
      else Finite (if i < 0 then - int a else int a))"

text \<open>\<^verbatim>\<open>left + right\<close> and \<^verbatim>\<open>left - right\<close>.\<close>

fun jsAdd :: "number \<Rightarrow> number \<Rightarrow> number" where
  "jsAdd (Finite a) (Finite b) = roundDouble (a + b)"
| "jsAdd NaN r = NaN"
| "jsAdd l NaN = NaN"
| "jsAdd PositiveInfinity NegativeInfinity = NaN"
| "jsAdd NegativeInfinity PositiveInfinity = NaN"
| "jsAdd PositiveInfinity r = PositiveInfinity"
| "jsAdd l PositiveInfinity = PositiveInfinity"
| "jsAdd NegativeInfinity r = NegativeInfinity"
| "jsAdd l NegativeInfinity = NegativeInfinity"

fun jsSubtract :: "number \<Rightarrow> number \<Rightarrow> number" where
  "jsSubtract (Finite a) (Finite b) = roundDouble (a - b)"
| "jsSubtract NaN r = NaN"
| "jsSubtract l NaN = NaN"
| "jsSubtract PositiveInfinity PositiveInfinity = NaN"
| "jsSubtract NegativeInfinity NegativeInfinity = NaN"
| "jsSubtract PositiveInfinity r = PositiveInfinity"
| "jsSubtract l PositiveInfinity = NegativeInfinity"
| "jsSubtract NegativeInfinity r = NegativeInfinity"
| "jsSubtract l NegativeInfinity = PositiveInfinity"

text \<open>\<^verbatim>\<open>Math.max(0, x)\<close>, which is \<^verbatim>\<open>NaN\<close> when \<open>x\<close> is.\<close>

fun mathMax0 :: "number \<Rightarrow> number" where
  "mathMax0 (Finite a) = Finite (max 0 a)"
| "mathMax0 PositiveInfinity = PositiveInfinity"
| "mathMax0 NegativeInfinity = Finite 0"
| "mathMax0 NaN = NaN"

text \<open>\<^verbatim>\<open>===\<close>, \<^verbatim>\<open><\<close> and \<^verbatim>\<open><=\<close> on numbers: every comparison with \<^verbatim>\<open>NaN\<close> is false.\<close>

definition jsStrictEquals :: "number \<Rightarrow> number \<Rightarrow> bool" where
  "jsStrictEquals l r = (l \<noteq> NaN \<and> l = r)"

fun jsLess :: "number \<Rightarrow> number \<Rightarrow> bool" where
  "jsLess (Finite a) (Finite b) = (a < b)"
| "jsLess NaN r = False"
| "jsLess l NaN = False"
| "jsLess PositiveInfinity r = False"
| "jsLess l PositiveInfinity = True"
| "jsLess l NegativeInfinity = False"
| "jsLess NegativeInfinity r = True"

definition jsLessEqual :: "number \<Rightarrow> number \<Rightarrow> bool" where
  "jsLessEqual l r = (jsLess l r \<or> jsStrictEquals l r)"

text \<open>\<^verbatim>\<open>x || 0\<close> on a number: 0 and \<^verbatim>\<open>NaN\<close> are falsy.\<close>

definition orZero :: "number \<Rightarrow> number" where
  "orZero v = (if v = Finite 0 \<or> v = NaN then Finite 0 else v)"

section \<open>Abstract syntax shared by the WHILE and GOTO languages\<close>

text \<open>
  The interpreters import their syntax trees from \<^verbatim>\<open>./ast\<close>; the shape of the trees is
  read off the interpreters' own \<^verbatim>\<open>switch\<close> statements and field accesses.
\<close>

datatype binaryOperator = Plus | Minus

datatype expression =
    Number number
  | Variable string
  | BinaryOp expression binaryOperator expression

datatype comparison = Eq | Neq | Lt | Gt | Le | Ge

datatype condition = Condition expression comparison expression

datatype error = Error string

type_synonym vars = "string \<rightharpoonup> number"

subsection \<open>Rendering numbers and expressions (used by the verbose trace only)\<close>

fun showNat :: "nat \<Rightarrow> string" where
  "showNat n =
     (if n < 10 then [char_of (48 + n)]
      else showNat (n div 10) @ [char_of (48 + n mod 10)])"

declare showNat.simps [simp del]

definition showInt :: "int \<Rightarrow> string" where
  "showInt i = (if i < 0 then CHR ''-'' # showNat (nat (- i)) else showNat (nat i))"

text \<open>
  \<^verbatim>\<open>String(value)\<close> and \<^verbatim>\<open>${value}\<close>. JavaScript prints the digits of an integer below
  \<open>10^21\<close> and switches to an exponent from there on; \<open>showNumber\<close> prints the digits
  throughout. The trace is the only place where numbers are printed.
\<close>

fun showNumber :: "number \<Rightarrow> string" where
  "showNumber (Finite i) = showInt i"
| "showNumber PositiveInfinity = ''Infinity''"
| "showNumber NegativeInfinity = ''-Infinity''"
| "showNumber NaN = ''NaN''"

definition showBool :: "bool \<Rightarrow> string" where
  "showBool b = (if b then ''true'' else ''false'')"

definition binaryOperatorToString :: "binaryOperator \<Rightarrow> string" where
  "binaryOperatorToString operator = (case operator of Plus \<Rightarrow> ''+'' | Minus \<Rightarrow> ''-'')"

definition comparisonToString :: "comparison \<Rightarrow> string" where
  "comparisonToString operator =
     (case operator of Eq \<Rightarrow> ''='' | Neq \<Rightarrow> ''!='' | Lt \<Rightarrow> ''<''
      | Gt \<Rightarrow> ''>'' | Le \<Rightarrow> ''<='' | Ge \<Rightarrow> ''>='')"

fun exprToString :: "expression \<Rightarrow> string" where
  "exprToString (Number v) = showNumber v"
| "exprToString (Variable name) = name"
| "exprToString (BinaryOp l operator r) =
     ''('' @ exprToString l @ '' '' @ binaryOperatorToString operator @ '' ''
       @ exprToString r @ '')''"

fun conditionToString :: "condition \<Rightarrow> string" where
  "conditionToString (Condition l operator r) =
     exprToString l @ '' '' @ comparisonToString operator @ '' '' @ exprToString r"

section \<open>The WHILE interpreter (src/while/interpreter.ts)\<close>

datatype statement =
    Assignment string expression
  | While condition "statement list"
  | If condition "statement list" "statement list option"

record program =
  statements :: "statement list"

text \<open>
  The fields of an interpreter object. \<open>console\<close> collects the lines written by
  \<^verbatim>\<open>console.log\<close>; it is the only thing the verbose branches touch.
\<close>

record interpreter =
  variables :: vars
  lockedVariables :: "string set"
  verbose :: bool
  console :: "string list"

definition consoleLog :: "string \<Rightarrow> ('a interpreter_scheme) \<Rightarrow> ('a interpreter_scheme)" where
  "consoleLog line this = this\<lparr>console := console this @ [line]\<rparr>"

text \<open>
  A \<^verbatim>\<open>Map\<close> object that a caller passes to \<^verbatim>\<open>evaluate\<close>: either a \<^verbatim>\<open>Map\<close> other than the
  store of the interpreter called (one of the caller's making, or one returned by
  another interpreter object), given by its entries in iteration order, or the \<^verbatim>\<open>Map\<close>
  that \<^verbatim>\<open>this.variables\<close> refers to, which the caller holds once a call of \<^verbatim>\<open>evaluate\<close>
  on the same object has returned it. The call writes to no \<^verbatim>\<open>Map\<close> but its own store,
  so the entries of the former are those the caller gave it; the entries of the latter
  are those the store has when the call reads it. The other \<^verbatim>\<open>Map\<close> of an interpreter
  object (the label map) and its \<^verbatim>\<open>Set\<close> are private and never returned.
\<close>

datatype mapObject =
    NewMap "(string \<times> number) list"
  | ThisVariables

text \<open>
  The second argument of \<^verbatim>\<open>evaluate\<close>: omitted, a bare \<^verbatim>\<open>Map\<close>, or an options object
  whose two fields are both optional.
\<close>

datatype evalArg =
    Omitted
  | BareMap mapObject
  | Options "mapObject option" "bool option"

definition constructor :: interpreter where
  "constructor = \<lparr>variables = Map.empty, lockedVariables = {}, verbose = False, console = []\<rparr>"

definition setVariable :: "string \<Rightarrow> number \<Rightarrow> interpreter \<Rightarrow> interpreter" where
  "setVariable name v this = this\<lparr>variables := (variables this)(name \<mapsto> v)\<rparr>"

text \<open>
  \<^verbatim>\<open>this.variables.get(name) || 0\<close>: an absent entry, a stored 0 and a stored \<^verbatim>\<open>NaN\<close> all
  read 0.
\<close>

definition getVariableValue :: "interpreter \<Rightarrow> string \<Rightarrow> number" where
  "getVariableValue this name =
     (case variables this name of None \<Rightarrow> Finite 0 | Some v \<Rightarrow> orZero v)"

fun evaluateExpression :: "interpreter \<Rightarrow> expression \<Rightarrow> number" where
  "evaluateExpression this (Number v) = v"
| "evaluateExpression this (Variable name) = getVariableValue this name"
| "evaluateExpression this (BinaryOp l operator r) =
     (let left = evaluateExpression this l;
          right = evaluateExpression this r
      in case operator of
           Plus \<Rightarrow> jsAdd left right
         | Minus \<Rightarrow> mathMax0 (jsSubtract left right))"

fun evaluateCondition :: "interpreter \<Rightarrow> condition \<Rightarrow> bool" where
  "evaluateCondition this (Condition l operator r) =
     (let left = evaluateExpression this l;
          right = evaluateExpression this r
      in case operator of
           Eq \<Rightarrow> jsStrictEquals left right
         | Neq \<Rightarrow> \<not> jsStrictEquals left right
         | Lt \<Rightarrow> jsLess left right
         | Gt \<Rightarrow> jsLess right left
         | Le \<Rightarrow> jsLessEqual left right
         | Ge \<Rightarrow> jsLessEqual right left)"

definition loopLimitError :: error where
  "loopLimitError = Error ''Infinite loop detected (safety limit: 1,000,000 iterations)''"

text \<open>
  \<open>executeStatements\<close> is the \<^verbatim>\<open>for (const s of body)\<close> loop; \<open>whileLoop\<close> is the
  \<^verbatim>\<open>while (this.evaluateCondition(...))\<close> loop of the \<^verbatim>\<open>"while"\<close> case with its two
  local counters, followed by the trace line printed after the loop.
\<close>

function (sequential)
  executeStatement :: "statement \<Rightarrow> interpreter \<Rightarrow> error + interpreter" and
  executeStatements :: "statement list \<Rightarrow> interpreter \<Rightarrow> error + interpreter" and
  whileLoop :: "condition \<Rightarrow> statement list \<Rightarrow> nat \<Rightarrow> nat \<Rightarrow> interpreter \<Rightarrow> error + interpreter"
where
  "executeStatement (Assignment variable e) this =
     (let v = evaluateExpression this e in
      if variable \<in> lockedVariables this then
        let this1 = this\<lparr>lockedVariables := lockedVariables this - {variable}\<rparr> in
        Inr (if verbose this1
             then consoleLog (''  [skip] '' @ variable @ '' := '' @ showNumber v
                              @ '' (using CLI value)'') this1
             else this1)
      else
        let oldValue = (case variables this variable of None \<Rightarrow> Finite 0 | Some old \<Rightarrow> old);
            this1 = this\<lparr>variables := (variables this)(variable \<mapsto> v)\<rparr> in
        Inr (if verbose this1
             then consoleLog (''  '' @ variable @ '' := '' @ showNumber v
                              @ '' (was '' @ showNumber oldValue @ '')'') this1
             else this1))"
| "executeStatement (While c body) this =
     (let this1 = (if verbose this
                   then consoleLog (''  WHILE '' @ conditionToString c) this
                   else this)
      in whileLoop c body 0 0 this1)"
| "executeStatement (If c thenBody elseBody) this =
     (let condTrue = evaluateCondition this c;
          this1 = (if verbose this
                   then consoleLog (''  IF '' @ conditionToString c @ '' -> ''
                                    @ showBool condTrue) this
                   else this)
      in if condTrue then executeStatements thenBody this1
         else (case elseBody of
                 Some stmts \<Rightarrow> executeStatements stmts this1
               | None \<Rightarrow> Inr this1))"
| "executeStatements [] this = Inr this"
| "executeStatements (s # rest) this =
     (case executeStatement s this of
        Inl e \<Rightarrow> Inl e
      | Inr this1 \<Rightarrow> executeStatements rest this1)"
| "whileLoop c body safetyCounter iteration this =
     (if evaluateCondition this c then
        if safetyCounter > 1000000 then Inl loopLimitError
        else
          let this1 = (if verbose this
                       then consoleLog (''    iteration '' @ showNat (iteration + 1)) this
                       else this)
          in (case executeStatements body this1 of
                Inl e \<Rightarrow> Inl e
              | Inr this2 \<Rightarrow> whileLoop c body (safetyCounter + 1) (iteration + 1) this2)
      else
        Inr (if verbose this \<and> iteration = 0
             then consoleLog ''    (condition false, skipped)'' this
             else this))"
  by pat_completeness auto

termination
  by (relation "inv_image (less_than <*lex*> less_than)
        (\<lambda>x. case x of
           Inl (s, _) \<Rightarrow> (2 * size s, 0)
         | Inr (Inl (ss, _)) \<Rightarrow> (2 * size_list size ss, 0)
         | Inr (Inr (_, body, safetyCounter, _, _)) \<Rightarrow>
             (2 * size_list size body + 1, 1000002 - safetyCounter))")
     (auto split: option.splits)

declare executeStatement.simps [simp del] executeStatements.simps [simp del]
  whileLoop.simps [simp del]

text \<open>
  The loop over the entries of \<^verbatim>\<open>initialVariables\<close>: each entry is stored and its name
  locked.
\<close>

fun setInitialVariables ::
  "(string \<times> number) list \<Rightarrow> ('a interpreter_scheme) \<Rightarrow> ('a interpreter_scheme)" where
  "setInitialVariables [] this = this"
| "setInitialVariables ((name, v) # rest) this =
     setInitialVariables rest
       (this\<lparr>variables := (variables this)(name \<mapsto> v),
             lockedVariables := insert name (lockedVariables this)\<rparr>)"

text \<open>
  The head of \<^verbatim>\<open>evaluate\<close>, the same in both interpreters: the argument is told apart
  by \<^verbatim>\<open>instanceof Map\<close>, \<^verbatim>\<open>this.verbose\<close> is assigned on each of the three paths, and
  the initial variables, when there are any, are stored and locked.
\<close>

definition readOptions ::
  "evalArg \<Rightarrow> ('a interpreter_scheme) \<Rightarrow> mapObject option \<times> ('a interpreter_scheme)" where
  "readOptions options this =
     (case options of
        BareMap m \<Rightarrow> (Some m, this\<lparr>verbose := False\<rparr>)
      | Options initialVariables verboseOpt \<Rightarrow>
          (initialVariables,
           this\<lparr>verbose := (case verboseOpt of Some b \<Rightarrow> b | None \<Rightarrow> False)\<rparr>)
      | Omitted \<Rightarrow> (None, this\<lparr>verbose := False\<rparr>))"

text \<open>
  \<^verbatim>\<open>if (initialVariables) { for (const [name, value] of initialVariables) ... }\<close>. When
  \<^verbatim>\<open>initialVariables\<close> is \<^verbatim>\<open>this.variables\<close> itself, the loop runs over the entries the
  store has at that moment, stores each of them where it is and locks its name.
\<close>

definition applyInitialVariables ::
  "mapObject option \<Rightarrow> ('a interpreter_scheme) \<Rightarrow> ('a interpreter_scheme)" where
  "applyInitialVariables initialVariables this =
     (case initialVariables of
        Some (NewMap m) \<Rightarrow> setInitialVariables m this
      | Some ThisVariables \<Rightarrow>
          this\<lparr>lockedVariables := lockedVariables this \<union> dom (variables this)\<rparr>
      | None \<Rightarrow> this)"

text \<open>
  The head of \<^verbatim>\<open>WhileInterpreter.evaluate\<close>, up to the loop over the program's
  statements: the two \<^verbatim>\<open>clear()\<close> calls, the options, the initial variables. The
  \<^verbatim>\<open>clear()\<close> calls come first: a \<^verbatim>\<open>Map\<close> that is \<^verbatim>\<open>this.variables\<close> is empty by the time
  its entries are read.
\<close>

definition initialise :: "evalArg \<Rightarrow> interpreter \<Rightarrow> interpreter" where
  "initialise options this =
     (let this1 = this\<lparr>variables := Map.empty, lockedVariables := {}\<rparr>;
          (initialVariables, this2) = readOptions options this1
      in applyInitialVariables initialVariables this2)"

text \<open>
  \<open>evaluateRun\<close> is the body of \<^verbatim>\<open>WhileInterpreter.evaluate\<close> as a function of the
  object's fields before the call; it yields the fields after the call, or the error
  thrown. The value the method returns is the object's own \<^verbatim>\<open>this.variables\<close>.
\<close>

definition evaluateRun :: "program \<Rightarrow> evalArg \<Rightarrow> interpreter \<Rightarrow> error + interpreter" where
  "evaluateRun prog options this = executeStatements (statements prog) (initialise options this)"

definition evaluate :: "program \<Rightarrow> evalArg \<Rightarrow> interpreter \<Rightarrow> error + vars" where
  "evaluate prog options this = map_sum id variables (evaluateRun prog options this)"

section \<open>The GOTO interpreter (src/goto/interpreter.ts)\<close>

datatype gotoStatement =
    GAssignment string expression
  | Goto string
  | IfGoto condition string
  | Halt

record instruction =
  label :: "string option"
  statement :: gotoStatement

record gotoProgram =
  instructions :: "instruction list"

record gotoInterpreter = interpreter +
  labelMap :: "string \<rightharpoonup> nat"

definition gotoConstructor :: gotoInterpreter where
  "gotoConstructor = \<lparr>variables = Map.empty, lockedVariables = {}, verbose = False,
     console = [], labelMap = Map.empty\<rparr>"

fun stmtToString :: "gotoStatement \<Rightarrow> string" where
  "stmtToString (GAssignment variable e) = variable @ '' := '' @ exprToString e"
| "stmtToString (Goto l) = ''GOTO '' @ l"
| "stmtToString (IfGoto c l) = ''IF '' @ conditionToString c @ '' THEN GOTO '' @ l"
| "stmtToString Halt = ''HALT''"

text \<open>
  The \<^verbatim>\<open>forEach\<close> that fills the label map. \<^verbatim>\<open>if (instr.label)\<close> is false for a
  missing label and for the empty string.
\<close>

fun buildLabelMap :: "instruction list \<Rightarrow> nat \<Rightarrow> gotoInterpreter \<Rightarrow> error + gotoInterpreter" where
  "buildLabelMap [] index this = Inr this"
| "buildLabelMap (instr # rest) index this =
     (case label instr of
        None \<Rightarrow> buildLabelMap rest (index + 1) this
      | Some l \<Rightarrow>
          if l = [] then buildLabelMap rest (index + 1) this
          else if l \<in> dom (labelMap this) then Inl (Error (''Duplicate label: '' @ l))
          else buildLabelMap rest (index + 1) (this\<lparr>labelMap := (labelMap this)(l \<mapsto> index)\<rparr>))"

definition getLabelIndex :: "gotoInterpreter \<Rightarrow> string \<Rightarrow> error + nat" where
  "getLabelIndex this l =
     (case labelMap this l of
        None \<Rightarrow> Inl (Error (''Undefined label: '' @ l))
      | Some index \<Rightarrow> Inr index)"

definition stepLimitError :: error where
  "stepLimitError = Error ''Infinite loop detected (safety limit: 1,000,000 steps)''"

text \<open>
  \<^verbatim>\<open>GotoInterpreter\<close> has its own copies of \<^verbatim>\<open>getVariableValue\<close>,
  \<^verbatim>\<open>evaluateExpression\<close>, \<^verbatim>\<open>evaluateBinaryExpression\<close> and \<^verbatim>\<open>evaluateCondition\<close>.
  In both classes \<^verbatim>\<open>evaluateBinaryExpression\<close> is the \<open>BinaryOp\<close> equation.
\<close>

definition gotoGetVariableValue :: "gotoInterpreter \<Rightarrow> string \<Rightarrow> number" where
  "gotoGetVariableValue this name =
     (case variables this name of None \<Rightarrow> Finite 0 | Some v \<Rightarrow> orZero v)"

fun gotoEvaluateExpression :: "gotoInterpreter \<Rightarrow> expression \<Rightarrow> number" where
  "gotoEvaluateExpression this (Number v) = v"
| "gotoEvaluateExpression this (Variable name) = gotoGetVariableValue this name"
| "gotoEvaluateExpression this (BinaryOp l operator r) =
     (let left = gotoEvaluateExpression this l;
          right = gotoEvaluateExpression this r
      in case operator of
           Plus \<Rightarrow> jsAdd left right
         | Minus \<Rightarrow> mathMax0 (jsSubtract left right))"

fun gotoEvaluateCondition :: "gotoInterpreter \<Rightarrow> condition \<Rightarrow> bool" where
  "gotoEvaluateCondition this (Condition l operator r) =
     (let left = gotoEvaluateExpression this l;
          right = gotoEvaluateExpression this r
      in case operator of
           Eq \<Rightarrow> jsStrictEquals left right
         | Neq \<Rightarrow> \<not> jsStrictEquals left right
         | Lt \<Rightarrow> jsLess left right
         | Gt \<Rightarrow> jsLess right left
         | Le \<Rightarrow> jsLessEqual left right
         | Ge \<Rightarrow> jsLessEqual right left)"

text \<open>The \<^verbatim>\<open>"assignment"\<close> case of the instruction switch.\<close>

definition gotoAssignment :: "string \<Rightarrow> expression \<Rightarrow> gotoInterpreter \<Rightarrow> gotoInterpreter" where
  "gotoAssignment variable e this =
     (let v = gotoEvaluateExpression this e in
      if variable \<in> lockedVariables this then
        let this1 = this\<lparr>lockedVariables := lockedVariables this - {variable}\<rparr> in
        if verbose this1 then consoleLog ''       -> skipped (using CLI value)'' this1
        else this1
      else
        let this1 = this\<lparr>variables := (variables this)(variable \<mapsto> v)\<rparr> in
        if verbose this1
        then consoleLog (''       -> '' @ variable @ '' = '' @ showNumber v) this1
        else this1)"

text \<open>The trace line printed before an instruction is executed.\<close>

definition traceInstruction :: "nat \<Rightarrow> instruction \<Rightarrow> gotoInterpreter \<Rightarrow> gotoInterpreter" where
  "traceInstruction pc instr this =
     (if verbose this then
        consoleLog (''  ['' @ showNat pc @ ''] ''
          @ (case label instr of
               None \<Rightarrow> []
             | Some l \<Rightarrow> if l = [] then [] else l @ '': '')
          @ stmtToString (statement instr)) this
      else this)"

text \<open>
  One pass through the body of the main loop of \<^verbatim>\<open>GotoInterpreter.evaluate\<close>, after
  the safety check: the trace line, the instruction switch and the final
  \<^verbatim>\<open>if (!jumped) pc++\<close>. The outcome is the next program counter, a \<^verbatim>\<open>return\<close> or
  a \<^verbatim>\<open>throw\<close>. The test \<^verbatim>\<open>if (!instr) break\<close> cannot succeed below the length of
  the instruction array (its elements are objects), so it has no branch here.
\<close>

datatype stepOutcome =
    Next nat gotoInterpreter
  | Return gotoInterpreter
  | Throw error

definition gotoStep :: "instruction list \<Rightarrow> nat \<Rightarrow> gotoInterpreter \<Rightarrow> stepOutcome" where
  "gotoStep instrs pc this =
     (let instr = instrs ! pc;
          this1 = traceInstruction pc instr this
      in case statement instr of
           GAssignment variable e \<Rightarrow> Next (pc + 1) (gotoAssignment variable e this1)
         | Goto l \<Rightarrow>
             (case getLabelIndex this1 l of
                Inl err \<Rightarrow> Throw err
              | Inr target \<Rightarrow>
                  Next target
                    (if verbose this1
                     then consoleLog (''       -> jump to '' @ l @ '' (pc=''
                                      @ showNat target @ '')'') this1
                     else this1))
         | IfGoto c l \<Rightarrow>
             if gotoEvaluateCondition this1 c then
               (case getLabelIndex this1 l of
                  Inl err \<Rightarrow> Throw err
                | Inr target \<Rightarrow>
                    Next target
                      (if verbose this1
                       then consoleLog (''       -> true, jump to '' @ l @ '' (pc=''
                                        @ showNat target @ '')'') this1
                       else this1))
             else
               Next (pc + 1)
                 (if verbose this1
                  then consoleLog ''       -> false, continue'' this1
                  else this1)
         | Halt \<Rightarrow>
             Return (if verbose this1 then consoleLog ''       -> HALT'' this1 else this1))"

text \<open>
  The main loop, from the local state \<open>pc\<close>, \<open>safetyCounter\<close>:
  \<^verbatim>\<open>while (pc < instructions.length) { if (safetyCounter++ > 1_000_000) throw ...; ... }\<close>
  followed by \<^verbatim>\<open>return this.variables\<close>.
\<close>

function gotoLoop ::
  "instruction list \<Rightarrow> nat \<Rightarrow> nat \<Rightarrow> gotoInterpreter \<Rightarrow> error + gotoInterpreter" where
  "gotoLoop instrs pc safetyCounter this =
     (if pc < length instrs then
        if safetyCounter > 1000000 then Inl stepLimitError
        else
          (case gotoStep instrs pc this of
             Next pc' this' \<Rightarrow> gotoLoop instrs pc' (safetyCounter + 1) this'
           | Return this' \<Rightarrow> Inr this'
           | Throw err \<Rightarrow> Inl err)
      else Inr this)"
  by pat_completeness auto

termination
  by (relation "measure (\<lambda>(instrs, pc, safetyCounter, this). 1000002 - safetyCounter)") auto

declare gotoLoop.simps [simp del]

text \<open>
  The head of \<^verbatim>\<open>GotoInterpreter.evaluate\<close>: the three \<^verbatim>\<open>clear()\<close> calls, the
  options, the initial variables.
\<close>

definition gotoInitialise :: "evalArg \<Rightarrow> gotoInterpreter \<Rightarrow> gotoInterpreter" where
  "gotoInitialise options this =
     (let this1 = this\<lparr>variables := Map.empty, labelMap := Map.empty, lockedVariables := {}\<rparr>;
          (initialVariables, this2) = readOptions options this1
      in applyInitialVariables initialVariables this2)"

text \<open>
  The body of \<^verbatim>\<open>GotoInterpreter.evaluate\<close>: the label map is built from index 0, and
  the main loop starts with \<^verbatim>\<open>pc = 0\<close> and \<^verbatim>\<open>safetyCounter = 0\<close>.
\<close>

definition gotoEvaluateRun ::
  "gotoProgram \<Rightarrow> evalArg \<Rightarrow> gotoInterpreter \<Rightarrow> error + gotoInterpreter" where
  "gotoEvaluateRun prog options this =
     (case buildLabelMap (instructions prog) 0 (gotoInitialise options this) of
        Inl err \<Rightarrow> Inl err
      | Inr this4 \<Rightarrow> gotoLoop (instructions prog) 0 0 this4)"

definition gotoEvaluate :: "gotoProgram \<Rightarrow> evalArg \<Rightarrow> gotoInterpreter \<Rightarrow> error + vars" where
  "gotoEvaluate prog options this = map_sum id variables (gotoEvaluateRun prog options this)"

text \<open>
  A number is negative when \<^verbatim>\<open>v < 0\<close> holds of it: a negative integer or the negative
  infinity. The literals of an expression, and the values of a store, that are not.
\<close>

definition negative :: "number \<Rightarrow> bool" where
  "negative v = jsLess v (Finite 0)"



text \<open>
  The entries of the initial variables that \<^verbatim>\<open>evaluate\<close> reads from its argument:
  \<^verbatim>\<open>this.variables\<close> has been emptied by then.
\<close>

fun mapEntries :: "mapObject \<Rightarrow> (string \<times> number) list" where
  "mapEntries (NewMap m) = m"
| "mapEntries ThisVariables = []"

fun suppliedEntries :: "evalArg \<Rightarrow> (string \<times> number) list" where
  "suppliedEntries Omitted = []"
| "suppliedEntries (BareMap m) = mapEntries m"
| "suppliedEntries (Options initialVariables verboseOpt) =
     (case initialVariables of None \<Rightarrow> [] | Some m \<Rightarrow> mapEntries m)"

definition lockStep :: "('a interpreter_scheme) \<Rightarrow> ('a interpreter_scheme) \<Rightarrow> bool" where
  "lockStep this this' =
     (lockedVariables this' \<subseteq> lockedVariables this \<and>
      (\<forall>name \<in> lockedVariables this'. variables this' name = variables this name))"

definition sameStore :: "interpreter \<Rightarrow> interpreter \<Rightarrow> bool" where
  "sameStore a b = (variables a = variables b \<and> lockedVariables a = lockedVariables b)"

definition gotoSameStore :: "gotoInterpreter \<Rightarrow> gotoInterpreter \<Rightarrow> bool" where
  "gotoSameStore a b =
     (variables a = variables b \<and> lockedVariables a = lockedVariables b \<and>
      labelMap a = labelMap b)"

fun sameOutcome :: "stepOutcome \<Rightarrow> stepOutcome \<Rightarrow> bool" where
  "sameOutcome (Next pc a) (Next pc' b) = (pc = pc' \<and> gotoSameStore a b)"
| "sameOutcome (Return a) (Return b) = gotoSameStore a b"
| "sameOutcome (Throw e) (Throw e') = (e = e')"
| "sameOutcome _ _ = False"

fun assignedVariables :: "statement \<Rightarrow> string set"
  and assignedVariablesList :: "statement list \<Rightarrow> string set" where
  "assignedVariables (Assignment variable e) = {variable}"
| "assignedVariables (While c body) = assignedVariablesList body"
| "assignedVariables (If c thenBody elseBody) =
     assignedVariablesList thenBody \<union>
     (case elseBody of None \<Rightarrow> {} | Some stmts \<Rightarrow> assignedVariablesList stmts)"
| "assignedVariablesList [] = {}"
| "assignedVariablesList (s # rest) = assignedVariables s \<union> assignedVariablesList rest"

definition untouched :: "string \<Rightarrow> interpreter \<Rightarrow> interpreter \<Rightarrow> bool" where
  "untouched name this this' =
     (variables this' name = variables this name \<and>
      (name \<in> lockedVariables this' \<longleftrightarrow> name \<in> lockedVariables this))"

text \<open>Example states and programs used to instantiate the theorems.\<close>

abbreviation pinnedX0 :: interpreter where
  "pinnedX0 \<equiv> \<lparr>variables = [''x0'' \<mapsto> Finite 5], lockedVariables = {''x0''}, verbose = False, console = []\<rparr>"

abbreviation gotoPinnedX0 :: gotoInterpreter where
  "gotoPinnedX0 \<equiv> \<lparr>variables = [''x0'' \<mapsto> Finite 5], lockedVariables = {''x0''}, verbose = False,
     console = [], labelMap = Map.empty\<rparr>"

abbreviation incrementTwice :: "statement list" where
  "incrementTwice \<equiv>
     [Assignment ''x0'' (Number (Finite 7)),
      Assignment ''x1'' (Variable ''x0''),
      Assignment ''x0'' (BinaryOp (Variable ''x0'') Plus (Number (Finite 1)))]"

abbreviation loopThenTwice :: "statement list" where
  "loopThenTwice \<equiv>
     [While (Condition (Variable ''x1'') Neq (Number (Finite 0)))
        [Assignment ''x0'' (Number (Finite 1))],
      Assignment ''x0'' (Number (Finite 7)),
      Assignment ''x0'' (Number (Finite 9))]"

abbreviation readX0 :: program where
  "readX0 \<equiv> \<lparr>statements = [Assignment ''x1'' (Variable ''x0'')]\<rparr>"

abbreviation gotoReadX0 :: gotoProgram where
  "gotoReadX0 \<equiv>
     \<lparr>instructions = [\<lparr>label = None, statement = GAssignment ''x1'' (Variable ''x0'')\<rparr>]\<rparr>"

abbreviation gotoIncrementTwice :: "instruction list" where
  "gotoIncrementTwice \<equiv>
     [\<lparr>label = None, statement = GAssignment ''x0'' (Number (Finite 7))\<rparr>,
      \<lparr>label = None, statement = GAssignment ''x1'' (Variable ''x0'')\<rparr>,
      \<lparr>label = None, statement = GAssignment ''x0'' (BinaryOp (Variable ''x0'') Plus (Number (Finite 1)))\<rparr>]"

abbreviation gotoTwiceThenHalt :: "instruction list" where
  "gotoTwiceThenHalt \<equiv>
     [\<lparr>label = None, statement = GAssignment ''x0'' (Number (Finite 7))\<rparr>,
      \<lparr>label = None, statement = GAssignment ''x0'' (Number (Finite 9))\<rparr>,
      \<lparr>label = None, statement = Halt\<rparr>,
      \<lparr>label = None, statement = GAssignment ''x0'' (Number (Finite 1))\<rparr>]"

abbreviation gotoStoreX0 :: "int \<Rightarrow> gotoInterpreter" where
  "gotoStoreX0 v \<equiv> \<lparr>variables = [''x0'' \<mapsto> Finite v], lockedVariables = {}, verbose = False,
     console = [], labelMap = Map.empty\<rparr>"

abbreviation storeX0 :: "int \<Rightarrow> interpreter" where
  "storeX0 v \<equiv> \<lparr>variables = [''x0'' \<mapsto> Finite v], lockedVariables = {}, verbose = False,
     console = []\<rparr>"

text \<open>The labels the \<^verbatim>\<open>forEach\<close> of \<^verbatim>\<open>evaluate\<close> puts into the label map, in order.\<close>

definition registeredLabels :: "instruction list \<Rightarrow> string list" where
  "registeredLabels instrs =
     concat (map (\<lambda>instr. case label instr of
                            None \<Rightarrow> []
                          | Some l \<Rightarrow> if l = [] then [] else [l]) instrs)"

text \<open>
  The program counter and the object after \<open>n\<close> passes through the loop body, when the
  run gets that far (no \<^verbatim>\<open>return\<close>, no \<^verbatim>\<open>throw\<close>, no end of program before); the safety
  counter is left out.
\<close>

fun gotoSteps ::
  "nat \<Rightarrow> instruction list \<Rightarrow> nat \<Rightarrow> gotoInterpreter \<Rightarrow> (nat \<times> gotoInterpreter) option" where
  "gotoSteps 0 instrs pc this = Some (pc, this)"
| "gotoSteps (Suc n) instrs pc this =
     (if pc < length instrs then
        (case gotoStep instrs pc this of
           Next pc' this' \<Rightarrow> gotoSteps n instrs pc' this'
         | Return this' \<Rightarrow> None
         | Throw err \<Rightarrow> None)
      else None)"

text \<open>The label the instruction at \<open>pc\<close> jumps to in the given state, if it jumps.\<close>

definition jumpTarget :: "instruction list \<Rightarrow> nat \<Rightarrow> gotoInterpreter \<Rightarrow> string option" where
  "jumpTarget instrs pc this =
     (case statement (instrs ! pc) of
        Goto l \<Rightarrow> Some l
      | IfGoto c l \<Rightarrow> if gotoEvaluateCondition this c then Some l else None
      | _ \<Rightarrow> None)"

text \<open>The first label of a list that is in the given set or occurs earlier in the list.\<close>

fun firstDuplicate :: "string set \<Rightarrow> string list \<Rightarrow> string option" where
  "firstDuplicate seen [] = None"
| "firstDuplicate seen (l # ls) =
     (if l \<in> seen then Some l else firstDuplicate (insert l seen) ls)"

text \<open>
  The object after \<open>n\<close> complete iterations of a \<^verbatim>\<open>while\<close> loop, when the loop gets that
  far (the condition holds before each of them and no body throws); the safety counter
  is left out.
\<close>

fun whileIterations ::
  "nat \<Rightarrow> condition \<Rightarrow> statement list \<Rightarrow> nat \<Rightarrow> interpreter \<Rightarrow> interpreter option" where
  "whileIterations 0 c body iteration this = Some this"
| "whileIterations (Suc n) c body iteration this =
     (if evaluateCondition this c then
        (case executeStatements body
                (if verbose this
                 then consoleLog (''    iteration '' @ showNat (iteration + 1)) this
                 else this) of
           Inl err \<Rightarrow> None
         | Inr this2 \<Rightarrow> whileIterations n c body (iteration + 1) this2)
      else None)"

abbreviation selfLoop :: "instruction list" where
  "selfLoop \<equiv> [\<lparr>label = Some ''M1'', statement = Goto ''M1''\<rparr>]"

abbreviation forever :: statement where
  "forever \<equiv> While (Condition (Number (Finite 0)) Eq (Number (Finite 0))) []"

abbreviation countdown :: "instruction list" where
  "countdown \<equiv>
     [\<lparr>label = None, statement = GAssignment ''x0'' (Number (Finite 5))\<rparr>,
      \<lparr>label = Some ''M1'', statement = IfGoto (Condition (Variable ''x0'') Eq (Number (Finite 0))) ''M2''\<rparr>,
      \<lparr>label = None, statement = GAssignment ''x0'' (BinaryOp (Variable ''x0'') Minus (Number (Finite 1)))\<rparr>,
      \<lparr>label = None, statement = Goto ''M1''\<rparr>,
      \<lparr>label = Some ''M2'', statement = Halt\<rparr>]"

abbreviation countdownAt :: "int \<Rightarrow> gotoInterpreter" where
  "countdownAt v \<equiv> \<lparr>variables = [''x0'' \<mapsto> Finite v], lockedVariables = {}, verbose = False,
     console = [], labelMap = [''M1'' \<mapsto> Suc 0, ''M2'' \<mapsto> 4]\<rparr>"

section \<open>The effect of a run on the store and the locks\<close>

text \<open>
  \<open>assign\<close> is what an assignment does to the store and the locks: with the lock on its
  variable it only removes the lock, without it it stores the value. \<open>wexec\<close> relates a
  statement, the interpreter object before it and the object after it, for the runs of
  \<open>executeStatement\<close> that return: it has a rule for each way through a statement, and
  the assignments executed on the way are the only steps that change the object. It has
  neither trace nor safety limit; \<open>quiet\<close> is an object with its trace removed. (For
  GOTO, \<open>gotoSteps\<close> above is the corresponding notion.)
\<close>

definition assign :: "string \<Rightarrow> expression \<Rightarrow> interpreter \<Rightarrow> interpreter" where
  "assign variable e this =
     (if variable \<in> lockedVariables this
      then this\<lparr>lockedVariables := lockedVariables this - {variable}\<rparr>
      else this\<lparr>variables := (variables this)(variable \<mapsto> evaluateExpression this e)\<rparr>)"

inductive wexec :: "statement \<Rightarrow> interpreter \<Rightarrow> interpreter \<Rightarrow> bool"
  and wexecs :: "statement list \<Rightarrow> interpreter \<Rightarrow> interpreter \<Rightarrow> bool" where
  Assign: "wexec (Assignment variable e) this (assign variable e this)"
| WhileFalse: "\<not> evaluateCondition this c \<Longrightarrow> wexec (While c body) this this"
| WhileTrue: "evaluateCondition this c \<Longrightarrow> wexecs body this this1 \<Longrightarrow>
     wexec (While c body) this1 this2 \<Longrightarrow> wexec (While c body) this this2"
| IfTrue: "evaluateCondition this c \<Longrightarrow> wexecs thenBody this this1 \<Longrightarrow>
     wexec (If c thenBody elseBody) this this1"
| IfFalseNone: "\<not> evaluateCondition this c \<Longrightarrow> wexec (If c thenBody None) this this"
| IfFalseSome: "\<not> evaluateCondition this c \<Longrightarrow> wexecs elseBody this this1 \<Longrightarrow>
     wexec (If c thenBody (Some elseBody)) this this1"
| Nil: "wexecs [] this this"
| Cons: "wexec s this this1 \<Longrightarrow> wexecs rest this1 this2 \<Longrightarrow> wexecs (s # rest) this this2"

definition quiet :: "interpreter \<Rightarrow> interpreter" where
  "quiet this = this\<lparr>verbose := False, console := []\<rparr>"

section \<open>Interpreter objects on the heap\<close>

text \<open>
  An interpreter object is created by \<^verbatim>\<open>new WhileInterpreter()\<close>; its constructor
  allocates the \<^verbatim>\<open>Map\<close> object that \<^verbatim>\<open>this.variables\<close> refers to from then on (the field
  is never assigned again). A heap gives the fields of every interpreter object by its
  address; the \<^verbatim>\<open>Map\<close> object held by the field \<^verbatim>\<open>variables\<close> of the object at address
  \<open>obj\<close> is named by \<open>obj\<close> too, and \<open>readMap\<close> reads its entries. \<^verbatim>\<open>evaluate\<close> ends with
  \<^verbatim>\<open>return this.variables\<close>: the caller receives the reference to that \<^verbatim>\<open>Map\<close> object,
  not a copy. A call that throws gives no heap here: the properties below are about
  calls that return, and are stated for every heap the call may start from.
\<close>

definition newObjects :: "nat \<Rightarrow> interpreter" where
  "newObjects obj = constructor"

definition gotoNewObjects :: "nat \<Rightarrow> gotoInterpreter" where
  "gotoNewObjects obj = gotoConstructor"

definition callEvaluate ::
  "(nat \<Rightarrow> interpreter) \<Rightarrow> nat \<Rightarrow> program \<Rightarrow> evalArg \<Rightarrow> error + ((nat \<Rightarrow> interpreter) \<times> nat)" where
  "callEvaluate heap obj prog options =
     (case evaluateRun prog options (heap obj) of
        Inl err \<Rightarrow> Inl err
      | Inr this' \<Rightarrow> Inr (heap(obj := this'), obj))"

definition gotoCallEvaluate ::
  "(nat \<Rightarrow> gotoInterpreter) \<Rightarrow> nat \<Rightarrow> gotoProgram \<Rightarrow> evalArg
     \<Rightarrow> error + ((nat \<Rightarrow> gotoInterpreter) \<times> nat)" where
  "gotoCallEvaluate heap obj prog options =
     (case gotoEvaluateRun prog options (heap obj) of
        Inl err \<Rightarrow> Inl err
      | Inr this' \<Rightarrow> Inr (heap(obj := this'), obj))"

definition readMap :: "(nat \<Rightarrow> 'a interpreter_scheme) \<Rightarrow> nat \<Rightarrow> vars" where
  "readMap heap ref = variables (heap ref)"

abbreviation setX0 :: "int \<Rightarrow> program" where
  "setX0 v \<equiv> \<lparr>statements = [Assignment ''x0'' (Number (Finite v))]\<rparr>"

abbreviation afterSetX0 :: "int \<Rightarrow> interpreter" where
  "afterSetX0 v \<equiv> \<lparr>variables = [''x0'' \<mapsto> Finite v], lockedVariables = {}, verbose = False, console = []\<rparr>"

abbreviation gotoSetX0 :: "int \<Rightarrow> gotoProgram" where
  "gotoSetX0 v \<equiv> \<lparr>instructions = [\<lparr>label = None, statement = GAssignment ''x0'' (Number (Finite v))\<rparr>]\<rparr>"

abbreviation gotoAfterSetX0 :: "int \<Rightarrow> gotoInterpreter" where
  "gotoAfterSetX0 v \<equiv> \<lparr>variables = [''x0'' \<mapsto> Finite v], lockedVariables = {}, verbose = False,
     console = [], labelMap = Map.empty\<rparr>"

abbreviation afterReadX0 :: interpreter where
  "afterReadX0 \<equiv> \<lparr>variables = [''x1'' \<mapsto> Finite 0], lockedVariables = {}, verbose = False,
     console = []\<rparr>"

abbreviation gotoAfterReadX0 :: gotoInterpreter where
  "gotoAfterReadX0 \<equiv> \<lparr>variables = [''x1'' \<mapsto> Finite 0], lockedVariables = {},
     verbose = False, console = [], labelMap = Map.empty\<rparr>"

lemma consoleLog_fields [simp]:
  "variables (consoleLog line this) = variables this"
  "lockedVariables (consoleLog line this) = lockedVariables this"
  "verbose (consoleLog line this) = verbose this"
  "console (consoleLog line this) = console this @ [line]"
  by (simp_all add: consoleLog_def)

lemma consoleLog_labelMap [simp]: "labelMap (consoleLog line this) = labelMap this"
  by (simp add: consoleLog_def)

lemma evaluateExpression_variables:
  "variables a = variables b \<Longrightarrow> evaluateExpression a e = evaluateExpression b e"
  by (induction e) (simp_all add: getVariableValue_def)

lemma evaluateCondition_variables:
  "variables a = variables b \<Longrightarrow> evaluateCondition a c = evaluateCondition b c"
  by (cases c) (simp add: evaluateExpression_variables [of a b])



lemma spacing_positive: "0 < spacing a"
  by (induction a rule: spacing.induct) (simp add: spacing.simps)

lemma spacing_small: "a < 2 ^ 53 \<Longrightarrow> spacing a = 1"
  by (simp add: spacing.simps)

lemma roundMagnitude_small: "a \<le> 2 ^ 53 \<Longrightarrow> roundMagnitude a = a"
proof (cases "a < 2 ^ 53")
  case True
  then show ?thesis by (simp add: roundMagnitude_def spacing_small)
next
  case False
  moreover assume "a \<le> 2 ^ 53"
  ultimately have a: "a = 2 ^ 53" by simp
  have "spacing (2 ^ 53) = 2" by (subst spacing.simps) (simp add: spacing_small)
  then show ?thesis unfolding a by (simp add: roundMagnitude_def)
qed

lemma roundDouble_exact: "\<bar>i\<bar> \<le> 2 ^ 53 \<Longrightarrow> roundDouble i = Finite i"
proof -
  assume i: "\<bar>i\<bar> \<le> 2 ^ 53"
  then have a: "nat \<bar>i\<bar> \<le> 2 ^ 53" by simp
  have "(2 :: nat) ^ 53 < 2 ^ 1024" by (rule power_strict_increasing) simp_all
  with a have lt: "\<not> 2 ^ 1024 \<le> nat \<bar>i\<bar>" by linarith
  have "(if i < 0 then - int (nat \<bar>i\<bar>) else int (nat \<bar>i\<bar>)) = i" by simp
  with lt show ?thesis
    unfolding roundDouble_def Let_def roundMagnitude_small [OF a] by (simp only: if_False)
qed

lemma roundDouble_small [simp]: "\<bar>i\<bar> \<le> 9007199254740992 \<Longrightarrow> roundDouble i = Finite i"
  by (rule roundDouble_exact) simp

lemma jsStrictEquals_Finite [simp]: "jsStrictEquals (Finite a) (Finite b) = (a = b)"
  by (simp add: jsStrictEquals_def)

lemma jsLessEqual_Finite [simp]: "jsLessEqual (Finite a) (Finite b) = (a \<le> b)"
  by (auto simp: jsLessEqual_def)

lemma orZero_Finite [simp]: "orZero (Finite a) = Finite a"
  by (simp add: orZero_def)

lemma negative_Finite [simp]: "negative (Finite a) = (a < 0)"
  by (simp add: negative_def)

lemma roundDouble_sign:
  "0 \<le> i \<Longrightarrow> \<not> negative (roundDouble i)"
  by (simp add: roundDouble_def negative_def Let_def)

lemma orZero_sign [simp]: "negative (orZero v) = negative v"
  by (cases v) (simp_all add: orZero_def negative_def)


lemma mathMax0_sign [simp]: "\<not> negative (mathMax0 v)"
  by (cases v) (simp_all add: negative_def)


lemma lockStep_refl [simp]: "lockStep this this"
  by (simp add: lockStep_def)

lemma lockStep_trans: "lockStep a b \<Longrightarrow> lockStep b c \<Longrightarrow> lockStep a c"
  by (auto simp: lockStep_def)

lemma lockStep_consoleLog [simp]:
  "lockStep a (consoleLog line b) = lockStep a b"
  "lockStep (consoleLog line a) b = lockStep a b"
  by (simp_all add: lockStep_def)

lemma executeStatement_Assignment_lockStep:
  "executeStatement (Assignment x e) this = Inr this' \<Longrightarrow> lockStep this this'"
  by (auto simp: executeStatement.simps Let_def lockStep_def split: if_splits)

lemma execute_lockStep:
  "executeStatement s this = Inr this' \<Longrightarrow> lockStep this this'"
  "executeStatements ss this = Inr this' \<Longrightarrow> lockStep this this'"
  "whileLoop c body safetyCounter iteration this = Inr this' \<Longrightarrow> lockStep this this'"
proof (induction s this and ss this and c body safetyCounter iteration this
    arbitrary: this' and this' and this'
    rule: executeStatement_executeStatements_whileLoop.induct)
  case (1 variable e this)
  then show ?case by (rule executeStatement_Assignment_lockStep)
next
  case (2 c body this)
  from "2.prems" "2.IH" [OF refl] show ?case
    by (auto simp: executeStatement.simps Let_def split: if_splits)
next
  case (3 c thenBody elseBody this)
  from "3.prems" "3.IH" show ?case
    by (auto simp: executeStatement.simps Let_def split: if_splits option.splits)
next
  case (4 this)
  then show ?case by (simp add: executeStatements.simps)
next
  case (5 s rest this)
  from "5.prems" obtain this1 where
    a: "executeStatement s this = Inr this1" and b: "executeStatements rest this1 = Inr this'"
    by (auto simp: executeStatements.simps split: sum.splits)
  from "5.IH"(1) [OF a] "5.IH"(2) [OF a b] show ?case by (rule lockStep_trans)
next
  case (6 c body safetyCounter iteration this)
  show ?case
  proof (cases "evaluateCondition this c")
    case False
    with "6.prems" show ?thesis by (auto simp: whileLoop.simps split: if_splits)
  next
    case True
    define this1 where "this1 = (if verbose this
                       then consoleLog (''    iteration '' @ showNat (iteration + 1)) this
                       else this)"
    from True "6.prems" have le: "\<not> 1000000 < safetyCounter"
      by (auto simp: whileLoop.simps split: if_splits)
    from True le "6.prems" obtain this2 where
      a: "executeStatements body this1 = Inr this2" and
      b: "whileLoop c body (safetyCounter + 1) (iteration + 1) this2 = Inr this'"
      by (subst (asm) whileLoop.simps) (auto simp: Let_def this1_def split: sum.splits if_splits)
    have "lockStep this1 this2"
      using "6.IH"(1) [OF True le this1_def a] .
    moreover have "lockStep this2 this'"
      using "6.IH"(2) [OF True le this1_def a b] .
    ultimately have "lockStep this1 this'" by (rule lockStep_trans)
    then show ?thesis by (simp add: this1_def split: if_splits)
  qed
qed

lemma sameStore_consoleLog [simp]:
  "sameStore (consoleLog line a) b = sameStore a b"
  "sameStore a (consoleLog line b) = sameStore a b"
  by (simp_all add: sameStore_def)

lemma sameStore_condition: "sameStore a b \<Longrightarrow> evaluateCondition a c = evaluateCondition b c"
  by (rule evaluateCondition_variables) (simp add: sameStore_def)

lemma rel_sum_eq_cases [consumes 1, case_names Inl Inr]:
  assumes "rel_sum (=) R x y"
  obtains (Inl) e where "x = Inl e" "y = Inl e"
        | (Inr) a b where "x = Inr a" "y = Inr b" "R a b"
  using assms by (cases x; cases y) auto

lemma execute_sameStore:
  "sameStore a b \<Longrightarrow> rel_sum (=) sameStore (executeStatement s a) (executeStatement s b)"
  "sameStore a b \<Longrightarrow> rel_sum (=) sameStore (executeStatements ss a) (executeStatements ss b)"
  "sameStore a b \<Longrightarrow>
     rel_sum (=) sameStore (whileLoop c body safetyCounter iteration a)
       (whileLoop c body safetyCounter iteration' b)"
proof (induction s a and ss a and c body safetyCounter iteration a
    arbitrary: b and b and b iteration'
    rule: executeStatement_executeStatements_whileLoop.induct)
  case (1 variable e this)
  then have v: "evaluateExpression b e = evaluateExpression this e"
    and vs: "variables b = variables this" and ls: "lockedVariables b = lockedVariables this"
    by (simp_all add: sameStore_def evaluateExpression_variables [of this b])
  show ?case
    by (simp add: executeStatement.simps(1) Let_def v vs ls sameStore_def)
next
  case (2 c body this)
  define this1 where
    "this1 = (if verbose this then consoleLog (''  WHILE '' @ conditionToString c) this else this)"
  define b1 where
    "b1 = (if verbose b then consoleLog (''  WHILE '' @ conditionToString c) b else b)"
  have s: "sameStore this1 b1" using "2.prems" by (simp add: this1_def b1_def)
  have unfold_a: "executeStatement (While c body) this = whileLoop c body 0 0 this1"
    by (simp add: executeStatement.simps Let_def this1_def)
  have unfold_b: "executeStatement (While c body) b = whileLoop c body 0 0 b1"
    by (simp add: executeStatement.simps Let_def b1_def)
  from "2.IH" [OF this1_def s, of 0] show ?case
    by (simp add: unfold_a unfold_b)
next
  case (3 c thenBody elseBody this)
  define this1 where "this1 = (if verbose this
      then consoleLog (''  IF '' @ conditionToString c @ '' -> ''
                       @ showBool (evaluateCondition this c)) this else this)"
  define b1 where "b1 = (if verbose b
      then consoleLog (''  IF '' @ conditionToString c @ '' -> ''
                       @ showBool (evaluateCondition b c)) b else b)"
  have s: "sameStore this1 b1" using "3.prems" by (simp add: this1_def b1_def)
  have c: "evaluateCondition b c = evaluateCondition this c"
    using "3.prems" by (simp add: sameStore_condition)
  have unfold_a: "executeStatement (If c thenBody elseBody) this =
      (if evaluateCondition this c then executeStatements thenBody this1
       else (case elseBody of Some stmts \<Rightarrow> executeStatements stmts this1 | None \<Rightarrow> Inr this1))"
    by (cases "verbose this") (simp_all add: executeStatement.simps Let_def this1_def split: option.split)
  have unfold_b: "executeStatement (If c thenBody elseBody) b =
      (if evaluateCondition b c then executeStatements thenBody b1
       else (case elseBody of Some stmts \<Rightarrow> executeStatements stmts b1 | None \<Rightarrow> Inr b1))"
    by (cases "verbose b") (simp_all add: executeStatement.simps Let_def b1_def split: option.split)
  show ?case
  proof (cases "evaluateCondition this c")
    case True
    from "3.IH"(1) [OF refl this1_def True s] True c show ?thesis
      by (simp add: unfold_a unfold_b)
  next
    case False
    show ?thesis
    proof (cases elseBody)
      case None
      with False c s show ?thesis unfolding unfold_a unfold_b by simp
    next
      case (Some stmts)
      from "3.IH"(2) [OF refl this1_def False Some s] False c Some show ?thesis
        unfolding unfold_a unfold_b by simp
    qed
  qed
next
  case (4 this)
  then show ?case by (simp add: executeStatements.simps)
next
  case (5 s rest this)
  from "5.IH"(1) [OF "5.prems"] show ?case
  proof (cases rule: rel_sum_eq_cases)
    case (Inl e)
    then show ?thesis by (simp add: executeStatements.simps)
  next
    case (Inr this1 b1)
    from "5.IH"(2) [OF Inr(1) Inr(3)] Inr show ?thesis
      by (simp add: executeStatements.simps)
  qed
next
  case (6 c body safetyCounter iteration this)
  have c: "evaluateCondition b c = evaluateCondition this c"
    using "6.prems" by (simp add: sameStore_condition)
  show ?case
  proof (cases "evaluateCondition this c")
    case False
    with c "6.prems" show ?thesis
      by (simp add: whileLoop.simps [of c body safetyCounter])
  next
    case True
    show ?thesis
    proof (cases "1000000 < safetyCounter")
      case True
      with \<open>evaluateCondition this c\<close> c show ?thesis
        by (simp add: whileLoop.simps [of c body safetyCounter])
    next
      case False
      define this1 where "this1 = (if verbose this
                       then consoleLog (''    iteration '' @ showNat (iteration + 1)) this
                       else this)"
      define b1 where "b1 = (if verbose b
                       then consoleLog (''    iteration '' @ showNat (iteration' + 1)) b
                       else b)"
      have s: "sameStore this1 b1" using "6.prems" by (simp add: this1_def b1_def)
      have unfold_a: "whileLoop c body safetyCounter iteration this =
          (case executeStatements body this1 of Inl e \<Rightarrow> Inl e
           | Inr this2 \<Rightarrow> whileLoop c body (safetyCounter + 1) (iteration + 1) this2)"
        using True False by (subst whileLoop.simps) (simp add: this1_def Let_def)
      have unfold_b: "whileLoop c body safetyCounter iteration' b =
          (case executeStatements body b1 of Inl e \<Rightarrow> Inl e
           | Inr this2 \<Rightarrow> whileLoop c body (safetyCounter + 1) (iteration' + 1) this2)"
        using True False c by (subst whileLoop.simps) (simp add: b1_def Let_def)
      from "6.IH"(1) [OF True False this1_def s] show ?thesis
      proof (cases rule: rel_sum_eq_cases)
        case (Inl e)
        then show ?thesis by (simp add: unfold_a unfold_b)
      next
        case (Inr this2 b2)
        from "6.IH"(2) [OF True False this1_def Inr(1) Inr(3), of "iteration' + 1"] Inr
        show ?thesis by (simp add: unfold_a unfold_b)
      qed
    qed
  qed
qed

lemma execute_error:
  "executeStatement s this = Inl err \<Longrightarrow> err = loopLimitError"
  "executeStatements ss this = Inl err \<Longrightarrow> err = loopLimitError"
  "whileLoop c body safetyCounter iteration this = Inl err \<Longrightarrow> err = loopLimitError"
proof (induction s this and ss this and c body safetyCounter iteration this
    rule: executeStatement_executeStatements_whileLoop.induct)
  case (1 variable e this)
  then show ?case by (auto simp: executeStatement.simps Let_def split: if_splits)
next
  case (2 c body this)
  from "2.prems" "2.IH" [OF refl] show ?case
    by (auto simp: executeStatement.simps Let_def split: if_splits)
next
  case (3 c thenBody elseBody this)
  from "3.prems" "3.IH" show ?case
    by (auto simp: executeStatement.simps Let_def split: if_splits option.splits)
next
  case (4 this)
  then show ?case by (simp add: executeStatements.simps)
next
  case (5 s rest this)
  from "5.prems" "5.IH" show ?case
    by (auto simp: executeStatements.simps split: sum.splits)
next
  case (6 c body safetyCounter iteration this)
  from "6.prems" "6.IH" show ?case
    by (subst (asm) whileLoop.simps) (auto simp: Let_def split: sum.splits if_splits)
qed

lemma traceInstruction_fields [simp]:
  "variables (traceInstruction pc instr this) = variables this"
  "lockedVariables (traceInstruction pc instr this) = lockedVariables this"
  "verbose (traceInstruction pc instr this) = verbose this"
  "labelMap (traceInstruction pc instr this) = labelMap this"
  by (simp_all add: traceInstruction_def)

lemma gotoAssignment_fields [simp]:
  "verbose (gotoAssignment x e this) = verbose this"
  "labelMap (gotoAssignment x e this) = labelMap this"
  "lockedVariables (gotoAssignment x e this) = lockedVariables this - {x}"
  "variables (gotoAssignment x e this) =
     (if x \<in> lockedVariables this then variables this
      else (variables this)(x \<mapsto> gotoEvaluateExpression this e))"
  by (auto simp: gotoAssignment_def Let_def)

lemma gotoAssignment_lockStep: "lockStep this (gotoAssignment x e this)"
  by (auto simp: lockStep_def)

lemma gotoSameStore_consoleLog [simp]:
  "gotoSameStore (consoleLog line a) b = gotoSameStore a b"
  "gotoSameStore a (consoleLog line b) = gotoSameStore a b"
  by (simp_all add: gotoSameStore_def)

lemma gotoSameStore_traceInstruction [simp]:
  "gotoSameStore (traceInstruction pc instr a) b = gotoSameStore a b"
  "gotoSameStore a (traceInstruction pc instr b) = gotoSameStore a b"
  by (simp_all add: gotoSameStore_def)

lemma gotoEvaluateExpression_variables:
  "variables a = variables b \<Longrightarrow> gotoEvaluateExpression a e = gotoEvaluateExpression b e"
  by (induction e) (simp_all add: gotoGetVariableValue_def)

lemma gotoEvaluateCondition_variables:
  "variables a = variables b \<Longrightarrow> gotoEvaluateCondition a c = gotoEvaluateCondition b c"
  by (cases c) (simp add: gotoEvaluateExpression_variables [of a b])

lemma gotoAssignment_sameStore:
  assumes "gotoSameStore a b"
  shows "gotoSameStore (gotoAssignment x e a) (gotoAssignment x e b)"
proof -
  from assms have "gotoEvaluateExpression a e = gotoEvaluateExpression b e"
    by (intro gotoEvaluateExpression_variables) (simp add: gotoSameStore_def)
  with assms show ?thesis by (simp add: gotoSameStore_def)
qed

lemma getLabelIndex_labelMap:
  "labelMap a = labelMap b \<Longrightarrow> getLabelIndex a l = getLabelIndex b l"
  by (simp add: getLabelIndex_def)

lemma gotoStep_sameStore:
  assumes "gotoSameStore a b"
  shows "sameOutcome (gotoStep instrs pc a) (gotoStep instrs pc b)"
proof -
  let ?i = "instrs ! pc"
  let ?a = "traceInstruction pc ?i a" and ?b = "traceInstruction pc ?i b"
  have s: "gotoSameStore ?a ?b" using assms by simp
  then have l: "\<And>l. getLabelIndex ?a l = getLabelIndex ?b l"
    by (intro getLabelIndex_labelMap) (simp add: gotoSameStore_def)
  from s have c: "\<And>c. gotoEvaluateCondition ?a c = gotoEvaluateCondition ?b c"
    by (intro gotoEvaluateCondition_variables) (simp add: gotoSameStore_def)
  show ?thesis
  proof (cases "statement ?i")
    case (GAssignment x e)
    with gotoAssignment_sameStore [OF s] show ?thesis by (simp add: gotoStep_def Let_def)
  next
    case (Goto lab)
    with s l [of lab] show ?thesis
      by (cases "getLabelIndex ?b lab") (simp_all add: gotoStep_def Let_def)
  next
    case (IfGoto cnd lab)
    with s l [of lab] c [of cnd] show ?thesis
      by (cases "getLabelIndex ?b lab") (simp_all add: gotoStep_def Let_def)
  next
    case Halt
    with s show ?thesis by (simp add: gotoStep_def Let_def)
  qed
qed

lemma gotoLoop_sameStore:
  "gotoSameStore a b \<Longrightarrow>
     rel_sum (=) gotoSameStore (gotoLoop instrs pc safetyCounter a) (gotoLoop instrs pc safetyCounter b)"
proof (induction instrs pc safetyCounter a arbitrary: b rule: gotoLoop.induct)
  case (1 instrs pc safetyCounter this)
  show ?case
  proof (cases "pc < length instrs \<and> \<not> 1000000 < safetyCounter")
    case False
    with "1.prems" show ?thesis
      by (auto simp: gotoLoop.simps [of instrs pc safetyCounter])
  next
    case True
    from gotoStep_sameStore [OF "1.prems", of instrs pc] show ?thesis
    proof (cases "gotoStep instrs pc this")
      case (Next pc' this')
      moreover assume "sameOutcome (gotoStep instrs pc this) (gotoStep instrs pc b)"
      ultimately obtain b' where b: "gotoStep instrs pc b = Next pc' b'" "gotoSameStore this' b'"
        by (cases "gotoStep instrs pc b") auto
      from "1.IH" [OF _ _ Next b(2)] True Next b(1) show ?thesis
        by (simp add: gotoLoop.simps [of instrs pc safetyCounter])
    next
      case (Return this')
      moreover assume "sameOutcome (gotoStep instrs pc this) (gotoStep instrs pc b)"
      ultimately obtain b' where b: "gotoStep instrs pc b = Return b'" "gotoSameStore this' b'"
        by (cases "gotoStep instrs pc b") auto
      with True Return show ?thesis
        by (simp add: gotoLoop.simps [of instrs pc safetyCounter])
    next
      case (Throw e)
      moreover assume "sameOutcome (gotoStep instrs pc this) (gotoStep instrs pc b)"
      ultimately have b: "gotoStep instrs pc b = Throw e"
        by (cases "gotoStep instrs pc b") auto
      with True Throw show ?thesis
        by (simp add: gotoLoop.simps [of instrs pc safetyCounter])
    qed
  qed
qed

lemma gotoStep_Next:
  assumes "gotoStep instrs pc this = Next pc' this'"
  shows "lockStep this this'" "labelMap this' = labelMap this" "verbose this' = verbose this"
  using assms gotoAssignment_lockStep [of "traceInstruction pc (instrs ! pc) this"]
  by (auto simp: gotoStep_def Let_def lockStep_def split: gotoStatement.splits sum.splits if_splits)

lemma gotoStep_Return:
  assumes "gotoStep instrs pc this = Return this'"
  shows "variables this' = variables this" "lockedVariables this' = lockedVariables this"
    "labelMap this' = labelMap this" "verbose this' = verbose this"
      "statement (instrs ! pc) = Halt"
  using assms
  by (auto simp: gotoStep_def Let_def split: gotoStatement.splits sum.splits if_splits)

lemma gotoLoop_lockStep:
  "gotoLoop instrs pc safetyCounter this = Inr this' \<Longrightarrow>
     lockStep this this' \<and> labelMap this' = labelMap this \<and> verbose this' = verbose this"
proof (induction instrs pc safetyCounter this rule: gotoLoop.induct)
  case (1 instrs pc safetyCounter this)
  show ?case
  proof (cases "pc < length instrs")
    case False
    with "1.prems" show ?thesis by (simp add: gotoLoop.simps [of instrs pc])
  next
    case True
    with "1.prems" have le: "\<not> 1000000 < safetyCounter"
      by (auto simp: gotoLoop.simps [of instrs pc] split: if_splits)
    show ?thesis
    proof (cases "gotoStep instrs pc this")
      case (Next pc' this1)
      with True le "1.prems" have "gotoLoop instrs pc' (safetyCounter + 1) this1 = Inr this'"
        by (simp add: gotoLoop.simps [of instrs pc])
      from "1.IH" [OF True le Next this] gotoStep_Next [OF Next] show ?thesis
        by (auto intro: lockStep_trans)
    next
      case (Return this1)
      with True le "1.prems" have "this1 = this'"
        by (simp add: gotoLoop.simps [of instrs pc])
      with gotoStep_Return [OF Return] show ?thesis by (simp add: lockStep_def)
    next
      case (Throw e)
      with True le "1.prems" show ?thesis by (simp add: gotoLoop.simps [of instrs pc])
    qed
  qed
qed

lemma setInitialVariables_fields:
  "verbose (setInitialVariables m this) = verbose this"
  "console (setInitialVariables m this) = console this"
  "lockedVariables (setInitialVariables m this) = lockedVariables this \<union> fst ` set m"
  "variables (setInitialVariables m this) = variables this ++ map_of (rev m)"
  by (induction m this rule: setInitialVariables.induct) (auto simp: map_add_def split: option.splits)

lemma untouched_refl [simp]: "untouched name this this"
  by (simp add: untouched_def)

lemma untouched_trans: "untouched name a b \<Longrightarrow> untouched name b c \<Longrightarrow> untouched name a c"
  by (simp add: untouched_def)

lemma untouched_consoleLog [simp]:
  "untouched name (consoleLog line a) b = untouched name a b"
  "untouched name a (consoleLog line b) = untouched name a b"
  by (simp_all add: untouched_def)

lemma execute_untouched:
  "executeStatement s this = Inr this' \<Longrightarrow> name \<notin> assignedVariables s \<Longrightarrow> untouched name this this'"
  "executeStatements ss this = Inr this' \<Longrightarrow> name \<notin> assignedVariablesList ss \<Longrightarrow>
     untouched name this this'"
  "whileLoop c body safetyCounter iteration this = Inr this' \<Longrightarrow>
     name \<notin> assignedVariablesList body \<Longrightarrow> untouched name this this'"
proof (induction s this and ss this and c body safetyCounter iteration this
    arbitrary: this' and this' and this'
    rule: executeStatement_executeStatements_whileLoop.induct)
  case (1 variable e this)
  then show ?case
    by (auto simp: executeStatement.simps Let_def untouched_def split: if_splits)
next
  case (2 c body this)
  from "2.prems" "2.IH" [OF refl] show ?case
    by (auto simp: executeStatement.simps Let_def split: if_splits)
next
  case (3 c thenBody elseBody this)
  from "3.prems" "3.IH" show ?case
    by (auto simp: executeStatement.simps Let_def split: if_splits option.splits)
next
  case (4 this)
  then show ?case by (simp add: executeStatements.simps)
next
  case (5 s rest this)
  from "5.prems" obtain this1 where
    a: "executeStatement s this = Inr this1" and b: "executeStatements rest this1 = Inr this'"
    by (auto simp: executeStatements.simps split: sum.splits)
  from "5.prems"(2) have n: "name \<notin> assignedVariables s" "name \<notin> assignedVariablesList rest"
    by simp_all
  from "5.IH"(1) [OF a n(1)] "5.IH"(2) [OF a b n(2)] show ?case by (rule untouched_trans)
next
  case (6 c body safetyCounter iteration this)
  show ?case
  proof (cases "evaluateCondition this c")
    case False
    with "6.prems" show ?thesis by (auto simp: whileLoop.simps split: if_splits)
  next
    case True
    define this1 where "this1 = (if verbose this
                       then consoleLog (''    iteration '' @ showNat (iteration + 1)) this
                       else this)"
    from True "6.prems" have le: "\<not> 1000000 < safetyCounter"
      by (auto simp: whileLoop.simps split: if_splits)
    from True le "6.prems" obtain this2 where
      a: "executeStatements body this1 = Inr this2" and
      b: "whileLoop c body (safetyCounter + 1) (iteration + 1) this2 = Inr this'"
      by (subst (asm) whileLoop.simps) (auto simp: Let_def this1_def split: sum.splits if_splits)
    have "untouched name this1 this2"
      using "6.IH"(1) [OF True le this1_def a "6.prems"(2)] .
    moreover have "untouched name this2 this'"
      using "6.IH"(2) [OF True le this1_def a b "6.prems"(2)] .
    ultimately have "untouched name this1 this'" by (rule untouched_trans)
    then show ?thesis by (simp add: this1_def split: if_splits)
  qed
qed

lemma setInitialVariables_labelMap [simp]:
  "labelMap (setInitialVariables m this) = labelMap this"
  by (induction m this rule: setInitialVariables.induct) simp_all

lemma setInitialVariables_sameStore:
  "variables a = variables b \<Longrightarrow> lockedVariables a = lockedVariables b \<Longrightarrow>
   variables (setInitialVariables m a) = variables (setInitialVariables m b) \<and>
   lockedVariables (setInitialVariables m a) = lockedVariables (setInitialVariables m b)"
  by (simp add: setInitialVariables_fields)

lemma initialise_cases:
  "initialise options this =
     setInitialVariables (suppliedEntries options)
       (this\<lparr>variables := Map.empty, lockedVariables := {},
             verbose := verbose (snd (readOptions options this))\<rparr>)"
proof (cases options)
  case Omitted
  then show ?thesis by (simp add: initialise_def readOptions_def applyInitialVariables_def)
next
  case (BareMap m)
  then show ?thesis
    by (cases m) (simp_all add: initialise_def readOptions_def applyInitialVariables_def)
next
  case (Options iv vo)
  show ?thesis
  proof (cases iv)
    case None
    with Options show ?thesis
      by (simp add: initialise_def readOptions_def applyInitialVariables_def)
  next
    case (Some m)
    with Options show ?thesis
      by (cases m) (simp_all add: initialise_def readOptions_def applyInitialVariables_def)
  qed
qed

lemma initialise_fields:
  "variables (initialise options this) =
     map_of (rev (suppliedEntries options))"
  "lockedVariables (initialise options this) =
     fst ` set (suppliedEntries options)"
  "verbose (initialise options this) = verbose (snd (readOptions options this))"
  "console (initialise options this) = console this"
  unfolding initialise_cases by (simp_all add: setInitialVariables_fields)

lemma gotoInitialise_cases:
  "gotoInitialise options this =
     setInitialVariables (suppliedEntries options)
       (this\<lparr>variables := Map.empty, labelMap := Map.empty, lockedVariables := {},
             verbose := verbose (snd (readOptions options this))\<rparr>)"
proof (cases options)
  case Omitted
  then show ?thesis by (simp add: gotoInitialise_def readOptions_def applyInitialVariables_def)
next
  case (BareMap m)
  then show ?thesis
    by (cases m) (simp_all add: gotoInitialise_def readOptions_def applyInitialVariables_def)
next
  case (Options iv vo)
  show ?thesis
  proof (cases iv)
    case None
    with Options show ?thesis
      by (simp add: gotoInitialise_def readOptions_def applyInitialVariables_def)
  next
    case (Some m)
    with Options show ?thesis
      by (cases m) (simp_all add: gotoInitialise_def readOptions_def applyInitialVariables_def)
  qed
qed

lemma gotoInitialise_fields:
  "variables (gotoInitialise options this) =
     map_of (rev (suppliedEntries options))"
  "lockedVariables (gotoInitialise options this) =
     fst ` set (suppliedEntries options)"
  "verbose (gotoInitialise options this) = verbose (snd (readOptions options this))"
  "labelMap (gotoInitialise options this) = Map.empty"
  "console (gotoInitialise options this) = console this"
  unfolding gotoInitialise_cases by (simp_all add: setInitialVariables_fields)

lemma evaluate_sameStore:
  assumes "suppliedEntries options = suppliedEntries options'"
  shows "evaluate prog options this = evaluate prog options' this'"
proof -
  have "sameStore (initialise options this) (initialise options' this')"
    by (simp add: sameStore_def initialise_fields assms)
  from execute_sameStore(2) [OF this, of "statements prog"] show ?thesis
    unfolding evaluate_def evaluateRun_def
    by (cases rule: rel_sum_eq_cases) (simp_all add: sameStore_def)
qed

lemma buildLabelMap_sameStore:
  "gotoSameStore a b \<Longrightarrow>
     rel_sum (=) gotoSameStore (buildLabelMap instrs index a) (buildLabelMap instrs index b)"
proof (induction instrs index a arbitrary: b rule: buildLabelMap.induct)
  case (1 index this)
  then show ?case by simp
next
  case (2 instr rest index this)
  have l: "labelMap b = labelMap this" using "2.prems" by (simp add: gotoSameStore_def)
  show ?case
  proof (cases "label instr")
    case None
    with "2.IH"(1) [OF None "2.prems"] show ?thesis by simp
  next
    case (Some l)
    show ?thesis
    proof (cases "l = []")
      case True
      with "2.IH"(2) [OF Some True "2.prems"] Some show ?thesis by simp
    next
      case False
      show ?thesis
      proof (cases "l \<in> dom (labelMap this)")
        case True
        with Some False l show ?thesis by simp
      next
        case nd: False
        have "gotoSameStore (this\<lparr>labelMap := (labelMap this)(l \<mapsto> index)\<rparr>)
            (b\<lparr>labelMap := (labelMap b)(l \<mapsto> index)\<rparr>)"
          using "2.prems" by (simp add: gotoSameStore_def)
        from "2.IH"(3) [OF Some False nd this] Some False nd l show ?thesis by simp
      qed
    qed
  qed
qed

lemma gotoEvaluate_sameStore:
  assumes "suppliedEntries options = suppliedEntries options'"
  shows "gotoEvaluate prog options this = gotoEvaluate prog options' this'"
proof -
  have "gotoSameStore (gotoInitialise options this) (gotoInitialise options' this')"
    by (simp add: gotoSameStore_def gotoInitialise_fields assms)
  from buildLabelMap_sameStore [OF this, of "instructions prog" 0] show ?thesis
  proof (cases rule: rel_sum_eq_cases)
    case (Inl e)
    then show ?thesis by (simp add: gotoEvaluate_def gotoEvaluateRun_def)
  next
    case (Inr a b)
    from gotoLoop_sameStore [OF Inr(3), of "instructions prog" 0 0] Inr(1,2) show ?thesis
      unfolding gotoEvaluate_def gotoEvaluateRun_def
      by (cases rule: rel_sum_eq_cases) (simp_all add: gotoSameStore_def)
  qed
qed

lemma registeredLabels_Cons:
  "registeredLabels (instr # rest) =
     (case label instr of None \<Rightarrow> [] | Some l \<Rightarrow> if l = [] then [] else [l]) @ registeredLabels rest"
  by (simp add: registeredLabels_def)

lemma registeredLabels_Nil [simp]: "registeredLabels [] = []"
  by (simp add: registeredLabels_def)

lemma buildLabelMap_ok:
  "distinct (registeredLabels instrs) \<Longrightarrow>
   set (registeredLabels instrs) \<inter> dom (labelMap this) = {} \<Longrightarrow>
   \<exists>this'. buildLabelMap instrs index this = Inr this' \<and>
     variables this' = variables this \<and> lockedVariables this' = lockedVariables this \<and>
     verbose this' = verbose this \<and> console this' = console this \<and>
     dom (labelMap this') = dom (labelMap this) \<union> set (registeredLabels instrs) \<and>
     (\<forall>l \<in> dom (labelMap this). labelMap this' l = labelMap this l) \<and>
     (\<forall>i < length instrs. \<forall>l. label (instrs ! i) = Some l \<and> l \<noteq> [] \<longrightarrow>
        labelMap this' l = Some (index + i))"
proof (induction instrs index this rule: buildLabelMap.induct)
  case (1 index this)
  then show ?case by simp
next
  case (2 instr rest index this)
  show ?case
  proof (cases "label instr = None \<or> label instr = Some []")
    case True
    then have r: "registeredLabels (instr # rest) = registeredLabels rest"
      by (auto simp: registeredLabels_Cons)
    from True have b: "buildLabelMap (instr # rest) index this = buildLabelMap rest (index + 1) this"
      by auto
    have ih: "distinct (registeredLabels rest) \<Longrightarrow>
        set (registeredLabels rest) \<inter> dom (labelMap this) = {} \<Longrightarrow>
        \<exists>this'. buildLabelMap rest (index + 1) this = Inr this' \<and>
          variables this' = variables this \<and> lockedVariables this' = lockedVariables this \<and>
          verbose this' = verbose this \<and> console this' = console this \<and>
          dom (labelMap this') = dom (labelMap this) \<union> set (registeredLabels rest) \<and>
          (\<forall>l \<in> dom (labelMap this). labelMap this' l = labelMap this l) \<and>
          (\<forall>i < length rest. \<forall>l. label (rest ! i) = Some l \<and> l \<noteq> [] \<longrightarrow>
             labelMap this' l = Some (index + 1 + i))"
      using True "2.IH"(1) "2.IH"(2) [of "[]"] by blast
    have d: "distinct (registeredLabels rest)"
      "set (registeredLabels rest) \<inter> dom (labelMap this) = {}"
      using "2.prems" r by simp_all
    from ih [OF d]
    obtain this' where t: "buildLabelMap rest (index + 1) this = Inr this'"
      "variables this' = variables this" "lockedVariables this' = lockedVariables this"
      "verbose this' = verbose this" "console this' = console this"
      "dom (labelMap this') = dom (labelMap this) \<union> set (registeredLabels rest)"
      "\<forall>l \<in> dom (labelMap this). labelMap this' l = labelMap this l"
      "\<forall>i < length rest. \<forall>l. label (rest ! i) = Some l \<and> l \<noteq> [] \<longrightarrow>
        labelMap this' l = Some (index + 1 + i)"
      by blast
    have "\<forall>i < length (instr # rest). \<forall>l. label ((instr # rest) ! i) = Some l \<and> l \<noteq> [] \<longrightarrow>
        labelMap this' l = Some (index + i)"
    proof (intro allI impI)
      fix i l assume i: "i < length (instr # rest)"
        and l: "label ((instr # rest) ! i) = Some l \<and> l \<noteq> []"
      show "labelMap this' l = Some (index + i)"
      proof (cases i)
        case 0
        with l True show ?thesis by auto
      next
        case (Suc j)
        with i l t(8) show ?thesis by auto
      qed
    qed
    with t b r show ?thesis by auto
  next
    case False
    then obtain l where l: "label instr = Some l" "l \<noteq> []" by auto
    then have r: "registeredLabels (instr # rest) = l # registeredLabels rest"
      by (simp add: registeredLabels_Cons)
    with "2.prems" have nd: "l \<notin> dom (labelMap this)" "l \<notin> set (registeredLabels rest)"
      "distinct (registeredLabels rest)"
      "set (registeredLabels rest) \<inter> dom (labelMap this) = {}" by auto
    let ?this1 = "this\<lparr>labelMap := (labelMap this)(l \<mapsto> index)\<rparr>"
    from l nd have b: "buildLabelMap (instr # rest) index this = buildLabelMap rest (index + 1) ?this1"
      by simp
    from nd have "set (registeredLabels rest) \<inter> dom (labelMap ?this1) = {}" by auto
    from "2.IH"(3) [OF l(1) l(2) nd(1) nd(3) this]
    obtain this' where t0: "buildLabelMap rest (index + 1) ?this1 = Inr this'"
      "variables this' = variables ?this1" "lockedVariables this' = lockedVariables ?this1"
      "verbose this' = verbose ?this1" "console this' = console ?this1"
      "dom (labelMap this') = dom (labelMap ?this1) \<union> set (registeredLabels rest)"
      "\<forall>l' \<in> dom (labelMap ?this1). labelMap this' l' = labelMap ?this1 l'"
      "\<forall>i < length rest. \<forall>l. label (rest ! i) = Some l \<and> l \<noteq> [] \<longrightarrow>
        labelMap this' l = Some (index + 1 + i)"
      by blast
    have t: "buildLabelMap rest (index + 1) ?this1 = Inr this'"
      "variables this' = variables this" "lockedVariables this' = lockedVariables this"
      "verbose this' = verbose this" "console this' = console this"
      "dom (labelMap this') = insert l (dom (labelMap this)) \<union> set (registeredLabels rest)"
      "\<forall>l' \<in> dom (labelMap ?this1). labelMap this' l' = labelMap ?this1 l'"
      "\<forall>i < length rest. \<forall>l. label (rest ! i) = Some l \<and> l \<noteq> [] \<longrightarrow>
        labelMap this' l = Some (index + 1 + i)"
      using t0 by simp_all
    from t(7) have l0: "labelMap this' l = Some index" by simp
    have "\<forall>i < length (instr # rest). \<forall>l. label ((instr # rest) ! i) = Some l \<and> l \<noteq> [] \<longrightarrow>
        labelMap this' l = Some (index + i)"
    proof (intro allI impI)
      fix i l' assume i: "i < length (instr # rest)"
        and l': "label ((instr # rest) ! i) = Some l' \<and> l' \<noteq> []"
      show "labelMap this' l' = Some (index + i)"
      proof (cases i)
        case 0
        with l' l l0 show ?thesis by auto
      next
        case (Suc j)
        with i l' t(8) show ?thesis by auto
      qed
    qed
    moreover from t(7) nd(1) have "\<forall>l' \<in> dom (labelMap this). labelMap this' l' = labelMap this l'"
      by auto
    ultimately show ?thesis using t b r by auto
  qed
qed

lemma gotoStep_Throw:
  "gotoStep instrs pc this = Throw err \<longleftrightarrow>
     (\<exists>l. jumpTarget instrs pc this = Some l \<and> labelMap this l = None \<and>
          err = Error (''Undefined label: '' @ l))"
  by (auto simp: gotoStep_def jumpTarget_def Let_def getLabelIndex_def
      gotoEvaluateCondition_variables [of "traceInstruction pc (instrs ! pc) this" this]
      split: gotoStatement.splits option.splits)

lemma gotoSteps_labelMap:
  "gotoSteps n instrs pc this = Some (pc', this') \<Longrightarrow> labelMap this' = labelMap this"
proof (induction n arbitrary: pc this)
  case 0
  then show ?case by simp
next
  case (Suc n)
  then show ?case
    by (auto split: if_splits stepOutcome.splits dest: gotoStep_Next(2))
qed

lemma gotoLoop_steps:
  "gotoSteps n instrs pc this = Some (pc', this') \<Longrightarrow> safetyCounter + n \<le> 1000001 \<Longrightarrow>
     gotoLoop instrs pc safetyCounter this = gotoLoop instrs pc' (safetyCounter + n) this'"
proof (induction n arbitrary: pc this safetyCounter)
  case 0
  then show ?case by simp
next
  case (Suc n)
  from Suc.prems(1) obtain pc1 this1 where
    s: "pc < length instrs" "gotoStep instrs pc this = Next pc1 this1"
       "gotoSteps n instrs pc1 this1 = Some (pc', this')"
    by (auto split: if_splits stepOutcome.splits)
  from Suc.prems(2) have "\<not> 1000000 < safetyCounter" by simp
  with s have "gotoLoop instrs pc safetyCounter this = gotoLoop instrs pc1 (safetyCounter + 1) this1"
    by (simp add: gotoLoop.simps [of instrs pc])
  also have "\<dots> = gotoLoop instrs pc' (safetyCounter + 1 + n) this'"
    using Suc.prems(2) by (intro Suc.IH [OF s(3)]) simp
  finally show ?case by simp
qed

lemma gotoLoop_error:
  "gotoLoop instrs pc safetyCounter this = Inl err \<Longrightarrow>
     \<exists>n pc' this'. gotoSteps n instrs pc this = Some (pc', this') \<and> pc' < length instrs \<and>
       (if 1000000 < safetyCounter + n then err = stepLimitError
        else gotoStep instrs pc' this' = Throw err)"
proof (induction instrs pc safetyCounter this rule: gotoLoop.induct)
  case (1 instrs pc safetyCounter this)
  from "1.prems" have pc: "pc < length instrs"
    by (auto simp: gotoLoop.simps [of instrs pc] split: if_splits)
  show ?case
  proof (cases "1000000 < safetyCounter")
    case True
    with pc "1.prems" have "err = stepLimitError" by (simp add: gotoLoop.simps [of instrs pc])
    with True pc have "gotoSteps 0 instrs pc this = Some (pc, this) \<and> pc < length instrs \<and>
       (if 1000000 < safetyCounter + 0 then err = stepLimitError
        else gotoStep instrs pc this = Throw err)" by simp
    then show ?thesis by blast
  next
    case False
    show ?thesis
    proof (cases "gotoStep instrs pc this")
      case (Next pc1 this1)
      with pc False "1.prems" have "gotoLoop instrs pc1 (safetyCounter + 1) this1 = Inl err"
        by (simp add: gotoLoop.simps [of instrs pc])
      from "1.IH" [OF pc False Next this] obtain n pc' this' where
        n: "gotoSteps n instrs pc1 this1 = Some (pc', this')" "pc' < length instrs"
          "if 1000000 < safetyCounter + 1 + n then err = stepLimitError
           else gotoStep instrs pc' this' = Throw err" by blast
      from n(1) pc Next have "gotoSteps (Suc n) instrs pc this = Some (pc', this')" by simp
      moreover from n(3) have "if 1000000 < safetyCounter + Suc n then err = stepLimitError
           else gotoStep instrs pc' this' = Throw err" by simp
      ultimately show ?thesis using n(2) by blast
    next
      case (Return this1)
      with pc False "1.prems" show ?thesis by (simp add: gotoLoop.simps [of instrs pc])
    next
      case (Throw e)
      with pc False "1.prems" have "e = err" by (simp add: gotoLoop.simps [of instrs pc])
      with Throw False pc have "gotoSteps 0 instrs pc this = Some (pc, this) \<and> pc < length instrs \<and>
       (if 1000000 < safetyCounter + 0 then err = stepLimitError
        else gotoStep instrs pc this = Throw err)" by simp
      then show ?thesis by blast
    qed
  qed
qed

lemma gotoLoop_limit:
  "gotoSteps n instrs pc this = Some (pc', this') \<Longrightarrow> pc' < length instrs \<Longrightarrow>
   1000000 < safetyCounter + n \<Longrightarrow> gotoLoop instrs pc safetyCounter this = Inl stepLimitError"
proof (induction n arbitrary: pc this safetyCounter)
  case 0
  then show ?case by (simp add: gotoLoop.simps [of instrs pc'])
next
  case (Suc n)
  from Suc.prems(1) obtain pc1 this1 where
    s: "pc < length instrs" "gotoStep instrs pc this = Next pc1 this1"
       "gotoSteps n instrs pc1 this1 = Some (pc', this')"
    by (auto split: if_splits stepOutcome.splits)
  show ?case
  proof (cases "1000000 < safetyCounter")
    case True
    with s(1) show ?thesis by (simp add: gotoLoop.simps [of instrs pc])
  next
    case False
    with s have "gotoLoop instrs pc safetyCounter this = gotoLoop instrs pc1 (safetyCounter + 1) this1"
      by (simp add: gotoLoop.simps [of instrs pc])
    also have "\<dots> = Inl stepLimitError"
      using Suc.prems(3) by (intro Suc.IH [OF s(3) Suc.prems(2)]) simp
    finally show ?thesis .
  qed
qed

lemma gotoLoop_throw:
  "gotoSteps n instrs pc this = Some (pc', this') \<Longrightarrow> pc' < length instrs \<Longrightarrow>
   \<not> 1000000 < safetyCounter + n \<Longrightarrow> gotoStep instrs pc' this' = Throw err \<Longrightarrow>
   gotoLoop instrs pc safetyCounter this = Inl err"
proof -
  assume a: "gotoSteps n instrs pc this = Some (pc', this')" "pc' < length instrs"
    "\<not> 1000000 < safetyCounter + n" "gotoStep instrs pc' this' = Throw err"
  from a(3) have "safetyCounter + n \<le> 1000001" by simp
  from gotoLoop_steps [OF a(1) this] a(2,3,4) show ?thesis
    by (simp add: gotoLoop.simps [of instrs pc'])
qed

lemma firstDuplicate_None:
  "firstDuplicate seen ls = None \<longleftrightarrow> distinct ls \<and> set ls \<inter> seen = {}"
  by (induction seen ls rule: firstDuplicate.induct) auto

lemma firstDuplicate_Some:
  "firstDuplicate seen ls = Some l \<Longrightarrow> l \<in> set ls"
  by (induction seen ls rule: firstDuplicate.induct) (auto split: if_splits)

lemma buildLabelMap_firstDuplicate:
  "firstDuplicate (dom (labelMap this)) (registeredLabels instrs) = Some l \<Longrightarrow>
   buildLabelMap instrs index this = Inl (Error (''Duplicate label: '' @ l))"
proof (induction instrs index this rule: buildLabelMap.induct)
  case (1 index this)
  then show ?case by simp
next
  case (2 instr rest index this)
  show ?case
  proof (cases "label instr = None \<or> label instr = Some []")
    case True
    then have r: "registeredLabels (instr # rest) = registeredLabels rest"
      by (auto simp: registeredLabels_Cons)
    from True have b: "buildLabelMap (instr # rest) index this = buildLabelMap rest (index + 1) this"
      by auto
    have "buildLabelMap rest (index + 1) this = Inl (Error (''Duplicate label: '' @ l))"
      using True "2.IH"(1) "2.IH"(2) [of "[]"] "2.prems" r by auto
    with b show ?thesis by simp
  next
    case False
    then obtain l' where l: "label instr = Some l'" "l' \<noteq> []" by auto
    then have r: "registeredLabels (instr # rest) = l' # registeredLabels rest"
      by (simp add: registeredLabels_Cons)
    show ?thesis
    proof (cases "l' \<in> dom (labelMap this)")
      case True
      with l r "2.prems" show ?thesis by simp
    next
      case nd: False
      let ?this1 = "this\<lparr>labelMap := (labelMap this)(l' \<mapsto> index)\<rparr>"
      from l nd have b:
        "buildLabelMap (instr # rest) index this = buildLabelMap rest (index + 1) ?this1"
        by simp
      from "2.prems" r nd
      have "firstDuplicate (dom (labelMap ?this1)) (registeredLabels rest) = Some l" by simp
      from "2.IH"(3) [OF l(1) l(2) nd this] b show ?thesis by simp
    qed
  qed
qed

lemma stepLimitError_distinct:
  "stepLimitError \<noteq> Error (''Undefined label: '' @ l)"
  "stepLimitError \<noteq> Error (''Duplicate label: '' @ l)"
  "loopLimitError \<noteq> Error (''Undefined label: '' @ l)"
  "loopLimitError \<noteq> Error (''Duplicate label: '' @ l)"
  "Error (''Duplicate label: '' @ l) \<noteq> Error (''Undefined label: '' @ l')"
  by (simp_all add: stepLimitError_def loopLimitError_def)

lemma whileLoop_limit:
  "whileIterations n c body iteration this = Some this' \<Longrightarrow> evaluateCondition this' c \<Longrightarrow>
   1000000 < safetyCounter + n \<Longrightarrow>
   whileLoop c body safetyCounter iteration this = Inl loopLimitError"
proof (induction n arbitrary: iteration this safetyCounter)
  case 0
  then show ?case by (simp add: whileLoop.simps [of c body safetyCounter])
next
  case (Suc n)
  define this1 where "this1 = (if verbose this
      then consoleLog (''    iteration '' @ showNat (iteration + 1)) this else this)"
  from Suc.prems(1) obtain this2 where
    s: "evaluateCondition this c" "executeStatements body this1 = Inr this2"
       "whileIterations n c body (iteration + 1) this2 = Some this'"
    by (auto simp: this1_def split: if_splits sum.splits)
  show ?case
  proof (cases "1000000 < safetyCounter")
    case True
    with s(1) show ?thesis by (simp add: whileLoop.simps [of c body safetyCounter])
  next
    case False
    with s(1,2) have "whileLoop c body safetyCounter iteration this =
        whileLoop c body (safetyCounter + 1) (iteration + 1) this2"
      by (subst whileLoop.simps) (simp add: Let_def this1_def)
    also have "\<dots> = Inl loopLimitError"
      using Suc.prems(3) by (intro Suc.IH [OF s(3) Suc.prems(2)]) simp
    finally show ?thesis .
  qed
qed

lemma whileLoop_always:
  assumes "\<And>t. evaluateCondition t c"
  shows "whileLoop c body safetyCounter iteration this = Inl loopLimitError"
proof (induction "1000001 - safetyCounter" arbitrary: safetyCounter iteration this)
  case 0
  then have "1000000 < safetyCounter" by simp
  with assms show ?case by (simp add: whileLoop.simps [of c body safetyCounter])
next
  case (Suc k)
  then have le: "\<not> 1000000 < safetyCounter" by simp
  define this1 where "this1 = (if verbose this
      then consoleLog (''    iteration '' @ showNat (iteration + 1)) this else this)"
  have u: "whileLoop c body safetyCounter iteration this =
      (case executeStatements body this1 of Inl e \<Rightarrow> Inl e
       | Inr this2 \<Rightarrow> whileLoop c body (safetyCounter + 1) (iteration + 1) this2)"
    using assms le by (subst whileLoop.simps) (simp add: Let_def this1_def)
  show ?case
  proof (cases "executeStatements body this1")
    case (Inl e)
    with execute_error(2) [OF Inl] u show ?thesis by simp
  next
    case (Inr this2)
    from Suc(2) have "k = 1000001 - (safetyCounter + 1)" by simp
    from Suc(1) [OF this] Inr u show ?thesis by simp
  qed
qed

lemma selfLoop_steps:
  "labelMap g ''M1'' = Some 0 \<Longrightarrow> \<exists>g'. gotoSteps n selfLoop 0 g = Some (0, g')"
proof (induction n arbitrary: g)
  case 0
  then show ?case by simp
next
  case (Suc n)
  from Suc.prems obtain g1 where s: "gotoStep selfLoop 0 g = Next 0 g1"
    by (auto simp: gotoStep_def getLabelIndex_def Let_def)
  from gotoStep_Next(2) [OF s] Suc.prems have "labelMap g1 ''M1'' = Some 0" by simp
  from Suc.IH [OF this] s show ?case by simp
qed

lemma selfLoop_limit:
  "gotoEvaluate \<lparr>instructions = selfLoop\<rparr> options this = Inl stepLimitError"
proof -
  let ?init = "gotoInitialise options this"
  have b: "buildLabelMap selfLoop 0 ?init = Inr (?init\<lparr>labelMap := [''M1'' \<mapsto> 0]\<rparr>)"
    by (simp add: gotoInitialise_fields)
  from selfLoop_steps [of "?init\<lparr>labelMap := [''M1'' \<mapsto> 0]\<rparr>" 1000001]
  obtain g' where "gotoSteps 1000001 selfLoop 0 (?init\<lparr>labelMap := [''M1'' \<mapsto> 0]\<rparr>) = Some (0, g')"
    by auto
  from gotoLoop_limit [OF this, of 0] b show ?thesis
    by (simp add: gotoEvaluate_def gotoEvaluateRun_def)
qed

lemma forever_limit: "executeStatement forever this = Inl loopLimitError"
  by (simp add: executeStatement.simps(2) Let_def whileLoop_always)

lemma forever_iterations:
  "\<not> verbose this \<Longrightarrow>
     whileIterations n (Condition (Number (Finite 0)) Eq (Number (Finite 0))) [] iteration this = Some this"
  by (induction n arbitrary: iteration) (simp_all add: executeStatements.simps)

lemma selfLoop_steps_quiet:
  "labelMap g ''M1'' = Some 0 \<Longrightarrow> \<not> verbose g \<Longrightarrow> gotoSteps n selfLoop 0 g = Some (0, g)"
  by (induction n)
     (simp_all add: gotoStep_def getLabelIndex_def Let_def traceInstruction_def)

lemma while_calls_wellfounded: "All executeStatement_executeStatements_whileLoop_dom"
  by (relation "inv_image (less_than <*lex*> less_than)
        (\<lambda>x. case x of
           Inl (s, _) \<Rightarrow> (2 * size s, 0)
         | Inr (Inl (ss, _)) \<Rightarrow> (2 * size_list size ss, 0)
         | Inr (Inr (_, body, safetyCounter, _, _)) \<Rightarrow>
             (2 * size_list size body + 1, 1000002 - safetyCounter))")
     (auto split: option.splits)

lemma goto_calls_wellfounded: "All gotoLoop_dom"
  by (relation "measure (\<lambda>(instrs, pc, safetyCounter, this). 1000002 - safetyCounter)") auto

subsection \<open>The interpreter's runs that return are runs of \<open>wexec\<close>\<close>

lemma execute_wexec:
  "executeStatement s this = Inr this' \<Longrightarrow> \<not> verbose this \<Longrightarrow>
     wexec s this this' \<and> \<not> verbose this'"
  "executeStatements ss this = Inr this' \<Longrightarrow> \<not> verbose this \<Longrightarrow>
     wexecs ss this this' \<and> \<not> verbose this'"
  "whileLoop c body safetyCounter iteration this = Inr this' \<Longrightarrow> \<not> verbose this \<Longrightarrow>
     wexec (While c body) this this' \<and> \<not> verbose this'"
proof (induction s this and ss this and c body safetyCounter iteration this
    arbitrary: this' and this' and this'
    rule: executeStatement_executeStatements_whileLoop.induct)
  case (1 variable e this)
  then have "this' = assign variable e this"
    by (auto simp: executeStatement.simps Let_def assign_def)
  moreover have "\<not> verbose (assign variable e this)"
    using "1.prems"(2) by (simp add: assign_def)
  ultimately show ?case by (simp add: wexec_wexecs.Assign)
next
  case (2 c body this)
  from "2.prems"(2) have t: "this = (if verbose this
      then consoleLog (''  WHILE '' @ conditionToString c) this else this)" by simp
  from "2.prems" have r: "whileLoop c body 0 0 this = Inr this'"
    by (simp add: executeStatement.simps Let_def)
  show ?case by (rule "2.IH" [OF t r "2.prems"(2)])
next
  case (3 c thenBody elseBody this)
  show ?case
  proof (cases "evaluateCondition this c")
    case True
    with "3.prems" have r: "executeStatements thenBody this = Inr this'"
      by (simp add: executeStatement.simps Let_def)
    from "3.prems"(2) have t: "this = (if verbose this
        then consoleLog (''  IF '' @ conditionToString c @ '' -> ''
               @ showBool (evaluateCondition this c)) this else this)" by simp
    have "wexecs thenBody this this' \<and> \<not> verbose this'"
      by (rule "3.IH"(1) [OF refl t True r "3.prems"(2)])
    with True show ?thesis by (blast intro: wexec_wexecs.IfTrue)
  next
    case False
    show ?thesis
    proof (cases elseBody)
      case None
      with False "3.prems" show ?thesis
        by (auto simp: executeStatement.simps Let_def intro: wexec_wexecs.IfFalseNone)
    next
      case (Some stmts)
      with False "3.prems" have r: "executeStatements stmts this = Inr this'"
        by (simp add: executeStatement.simps Let_def)
      from "3.prems"(2) have t: "this = (if verbose this
          then consoleLog (''  IF '' @ conditionToString c @ '' -> ''
                 @ showBool (evaluateCondition this c)) this else this)" by simp
      have "wexecs stmts this this' \<and> \<not> verbose this'"
        by (rule "3.IH"(2) [OF refl t False Some r "3.prems"(2)])
      with False Some show ?thesis by (blast intro: wexec_wexecs.IfFalseSome)
    qed
  qed
next
  case (4 this)
  then show ?case by (auto simp: executeStatements.simps intro: wexec_wexecs.Nil)
next
  case (5 s rest this)
  from "5.prems" obtain this1 where
    a: "executeStatement s this = Inr this1" and b: "executeStatements rest this1 = Inr this'"
    by (auto simp: executeStatements.simps split: sum.splits)
  from "5.IH"(1) [OF a "5.prems"(2)] have 1: "wexec s this this1" "\<not> verbose this1"
    by blast+
  from "5.IH"(2) [OF a b 1(2)] 1 show ?case by (blast intro: wexec_wexecs.Cons)
next
  case (6 c body safetyCounter iteration this)
  show ?case
  proof (cases "evaluateCondition this c")
    case False
    with "6.prems" show ?thesis
      by (auto simp: whileLoop.simps [of c body safetyCounter] intro: wexec_wexecs.WhileFalse)
  next
    case True
    from True "6.prems" have le: "\<not> 1000000 < safetyCounter"
      by (auto simp: whileLoop.simps [of c body safetyCounter] split: if_splits)
    from True le "6.prems" obtain this2 where
      a: "executeStatements body this = Inr this2" and
      b: "whileLoop c body (safetyCounter + 1) (iteration + 1) this2 = Inr this'"
      by (subst (asm) whileLoop.simps) (auto simp: Let_def split: sum.splits if_splits)
    from "6.prems"(2) have t: "this = (if verbose this
        then consoleLog (''    iteration '' @ showNat (iteration + 1)) this else this)" by simp
    have 1: "wexecs body this this2 \<and> \<not> verbose this2"
      by (rule "6.IH"(1) [OF True le t a "6.prems"(2)])
    then have q: "\<not> verbose this2" ..
    have 2: "wexec (While c body) this2 this' \<and> \<not> verbose this'"
      by (rule "6.IH"(2) [OF True le t a b q])
    from True 1 2 show ?thesis by (blast intro: wexec_wexecs.WhileTrue)
  qed
qed

inductive_cases wexec_AssignE: "wexec (Assignment variable e) this this'"
inductive_cases wexec_WhileE: "wexec (While c body) this this'"
inductive_cases wexec_IfE: "wexec (If c thenBody elseBody) this this'"
inductive_cases wexecs_NilE: "wexecs [] this this'"
inductive_cases wexecs_ConsE: "wexecs (s # rest) this this'"

lemma wexec_fields:
  "wexec s w w' \<Longrightarrow> verbose w' = verbose w \<and> console w' = console w"
  "wexecs ss w w' \<Longrightarrow> verbose w' = verbose w \<and> console w' = console w"
  by (induction rule: wexec_wexecs.inducts) (simp_all add: assign_def)

lemma execute_quiet:
  "executeStatement s this = Inr this' \<Longrightarrow> wexec s (quiet this) (quiet this')"
  "executeStatements ss this = Inr this' \<Longrightarrow> wexecs ss (quiet this) (quiet this')"
proof -
  have s: "sameStore this (quiet this)" by (simp add: sameStore_def quiet_def)
  have q: "\<not> verbose (quiet this)" by (simp add: quiet_def)
  have e: "r = quiet this'"
    if "sameStore this' r" "verbose r = verbose (quiet this)" "console r = console (quiet this)"
    for r
    using that by (simp add: sameStore_def quiet_def)
  show "wexec s (quiet this) (quiet this')" if a: "executeStatement s this = Inr this'"
  proof -
    from execute_sameStore(1) [OF s, of s] a obtain r where
      r: "executeStatement s (quiet this) = Inr r" "sameStore this' r"
      by (cases rule: rel_sum_eq_cases) auto
    from execute_wexec(1) [OF r(1) q] have w: "wexec s (quiet this) r" by simp
    from wexec_fields(1) [OF w] r(2) have "r = quiet this'" by (intro e) simp_all
    with w show ?thesis by simp
  qed
  show "wexecs ss (quiet this) (quiet this')" if a: "executeStatements ss this = Inr this'"
  proof -
    from execute_sameStore(2) [OF s, of ss] a obtain r where
      r: "executeStatements ss (quiet this) = Inr r" "sameStore this' r"
      by (cases rule: rel_sum_eq_cases) auto
    from execute_wexec(2) [OF r(1) q] have w: "wexecs ss (quiet this) r" by simp
    from wexec_fields(2) [OF w] r(2) have "r = quiet this'" by (intro e) simp_all
    with w show ?thesis by simp
  qed
qed

lemma buildLabelMap_keeps:
  "buildLabelMap instrs index this = Inr this' \<Longrightarrow>
     variables this' = variables this \<and> lockedVariables this' = lockedVariables this \<and>
     verbose this' = verbose this \<and> console this' = console this"
  by (induction instrs index this rule: buildLabelMap.induct)
     (auto split: option.splits if_splits)

section \<open>The claims\<close>




text \<open>
  C6. The verbose option does not affect the outcome of \<^verbatim>\<open>evaluate\<close>: for the same
  program and the same initial variables, any two settings of \<^verbatim>\<open>verbose\<close> give the same
  returned mapping, or the same error; in the WHILE and in the GOTO interpreter.
\<close>

theorem verbose_side_channel:
  "evaluate prog (Options initialVariables verboseOpt) this =
     evaluate prog (Options initialVariables verboseOpt') this \<and>
   gotoEvaluate gprog (Options initialVariables verboseOpt) gthis =
     gotoEvaluate gprog (Options initialVariables verboseOpt') gthis"
  by (simp add: evaluate_sameStore gotoEvaluate_sameStore readOptions_def)

text \<open>
  C10. The second argument of \<^verbatim>\<open>evaluate\<close> may be a bare \<^verbatim>\<open>Map\<close>, an options object or
  missing. In every form the call starts from an empty store and no lock. A bare
  \<^verbatim>\<open>Map\<close> is taken as the initial variables with verbose off: its entries are stored,
  their names locked, and the call is the call with \<^verbatim>\<open>{initialVariables: m}\<close>. A missing
  argument gives no variable, no lock and verbose off, and the call is the call with
  \<^verbatim>\<open>{}\<close>. An options object gives the entries of its \<^verbatim>\<open>initialVariables\<close>, if any, and its
  \<^verbatim>\<open>verbose\<close>, off when missing. A \<^verbatim>\<open>Map\<close> that is the interpreter's own store has no entry
  left when it is read, in either form. For the same initial variables all call forms
  return the same mapping (or the same error), whatever the verbose option: a program
  that assigns to a pinned variable once returns the pinned value, and returns the
  assigned value when the argument is missing. In the WHILE and in the GOTO interpreter.
\<close>

theorem evaluate_call_forms:
  "variables (initialise (BareMap (NewMap m)) this) = map_of (rev m) \<and>
   lockedVariables (initialise (BareMap (NewMap m)) this) = fst ` set m \<and>
   verbose (initialise (BareMap mo) this) = False \<and>
   variables (initialise (Options (Some (NewMap m)) verboseOpt) this) = map_of (rev m) \<and>
   lockedVariables (initialise (Options (Some (NewMap m)) verboseOpt) this) = fst ` set m \<and>
   verbose (initialise (Options initialVariables verboseOpt) this) =
     (case verboseOpt of Some b \<Rightarrow> b | None \<Rightarrow> False) \<and>
   variables (initialise Omitted this) = Map.empty \<and>
   lockedVariables (initialise Omitted this) = {} \<and>
   verbose (initialise Omitted this) = False \<and>
   variables (initialise (Options None verboseOpt) this) = Map.empty \<and>
   lockedVariables (initialise (Options None verboseOpt) this) = {} \<and>
   variables (initialise (BareMap ThisVariables) this) = Map.empty \<and>
   lockedVariables (initialise (BareMap ThisVariables) this) = {} \<and>
   variables (initialise (Options (Some ThisVariables) verboseOpt) this) = Map.empty \<and>
   lockedVariables (initialise (Options (Some ThisVariables) verboseOpt) this) = {} \<and>
   evaluateRun prog options this =
     executeStatements (statements prog) (initialise options this) \<and>
   evaluateRun prog (BareMap mo) this = evaluateRun prog (Options (Some mo) (Some False)) this \<and>
   evaluateRun prog (BareMap mo) this = evaluateRun prog (Options (Some mo) None) this \<and>
   evaluate prog (BareMap mo) this = evaluate prog (Options (Some mo) verboseOpt) this \<and>
   evaluateRun prog Omitted this = evaluateRun prog (Options None None) this \<and>
   evaluate prog Omitted this = evaluate prog (Options None verboseOpt) this \<and>
   evaluate prog Omitted this = evaluate prog (BareMap (NewMap [])) this \<and>
   evaluate prog Omitted this = evaluate prog (Options (Some (NewMap [])) verboseOpt) this \<and>
   evaluate \<lparr>statements = [Assignment name e]\<rparr> (BareMap (NewMap [(name, v)])) this
     = Inr [name \<mapsto> v] \<and>
   evaluate \<lparr>statements = [Assignment name e]\<rparr> Omitted this
     = Inr [name \<mapsto> evaluateExpression constructor e] \<and>
   variables (gotoInitialise (BareMap (NewMap m)) gthis) = map_of (rev m) \<and>
   lockedVariables (gotoInitialise (BareMap (NewMap m)) gthis) = fst ` set m \<and>
   verbose (gotoInitialise (BareMap mo) gthis) = False \<and>
   variables (gotoInitialise (Options (Some (NewMap m)) verboseOpt) gthis) = map_of (rev m) \<and>
   lockedVariables (gotoInitialise (Options (Some (NewMap m)) verboseOpt) gthis) = fst ` set m \<and>
   verbose (gotoInitialise (Options initialVariables verboseOpt) gthis) =
     (case verboseOpt of Some b \<Rightarrow> b | None \<Rightarrow> False) \<and>
   variables (gotoInitialise Omitted gthis) = Map.empty \<and>
   lockedVariables (gotoInitialise Omitted gthis) = {} \<and>
   verbose (gotoInitialise Omitted gthis) = False \<and>
   variables (gotoInitialise (Options None verboseOpt) gthis) = Map.empty \<and>
   lockedVariables (gotoInitialise (Options None verboseOpt) gthis) = {} \<and>
   variables (gotoInitialise (BareMap ThisVariables) gthis) = Map.empty \<and>
   lockedVariables (gotoInitialise (BareMap ThisVariables) gthis) = {} \<and>
   variables (gotoInitialise (Options (Some ThisVariables) verboseOpt) gthis) = Map.empty \<and>
   lockedVariables (gotoInitialise (Options (Some ThisVariables) verboseOpt) gthis) = {} \<and>
   gotoEvaluateRun gprog (BareMap mo) gthis =
     gotoEvaluateRun gprog (Options (Some mo) (Some False)) gthis \<and>
   gotoEvaluateRun gprog (BareMap mo) gthis =
     gotoEvaluateRun gprog (Options (Some mo) None) gthis \<and>
   gotoEvaluate gprog (BareMap mo) gthis =
     gotoEvaluate gprog (Options (Some mo) verboseOpt) gthis \<and>
   gotoEvaluateRun gprog Omitted gthis = gotoEvaluateRun gprog (Options None None) gthis \<and>
   gotoEvaluate gprog Omitted gthis = gotoEvaluate gprog (Options None verboseOpt) gthis \<and>
   gotoEvaluate gprog Omitted gthis = gotoEvaluate gprog (BareMap (NewMap [])) gthis \<and>
   gotoEvaluate gprog Omitted gthis =
     gotoEvaluate gprog (Options (Some (NewMap [])) verboseOpt) gthis \<and>
   gotoEvaluate \<lparr>instructions = [\<lparr>label = None, statement = GAssignment name e\<rparr>]\<rparr>
     (BareMap (NewMap [(name, v)])) gthis = Inr [name \<mapsto> v] \<and>
   gotoEvaluate \<lparr>instructions = [\<lparr>label = None, statement = GAssignment name e\<rparr>]\<rparr>
     Omitted gthis = Inr [name \<mapsto> gotoEvaluateExpression gotoConstructor e]"
proof -
  have w: "variables (initialise (BareMap (NewMap m)) this) = map_of (rev m)"
   "lockedVariables (initialise (BareMap (NewMap m)) this) = fst ` set m"
   "verbose (initialise (BareMap mo) this) = False"
   "variables (initialise (Options (Some (NewMap m)) verboseOpt) this) = map_of (rev m)"
   "lockedVariables (initialise (Options (Some (NewMap m)) verboseOpt) this) = fst ` set m"
   "verbose (initialise (Options initialVariables verboseOpt) this) =
     (case verboseOpt of Some b \<Rightarrow> b | None \<Rightarrow> False)"
   "variables (initialise Omitted this) = Map.empty"
   "lockedVariables (initialise Omitted this) = {}"
   "verbose (initialise Omitted this) = False"
   "variables (initialise (Options None verboseOpt) this) = Map.empty"
   "lockedVariables (initialise (Options None verboseOpt) this) = {}"
   "variables (initialise (BareMap ThisVariables) this) = Map.empty"
   "lockedVariables (initialise (BareMap ThisVariables) this) = {}"
   "variables (initialise (Options (Some ThisVariables) verboseOpt) this) = Map.empty"
   "lockedVariables (initialise (Options (Some ThisVariables) verboseOpt) this) = {}"
    by (simp_all add: initialise_fields readOptions_def)
  have gw: "variables (gotoInitialise (BareMap (NewMap m)) gthis) = map_of (rev m)"
   "lockedVariables (gotoInitialise (BareMap (NewMap m)) gthis) = fst ` set m"
   "verbose (gotoInitialise (BareMap mo) gthis) = False"
   "variables (gotoInitialise (Options (Some (NewMap m)) verboseOpt) gthis) = map_of (rev m)"
   "lockedVariables (gotoInitialise (Options (Some (NewMap m)) verboseOpt) gthis) = fst ` set m"
   "verbose (gotoInitialise (Options initialVariables verboseOpt) gthis) =
     (case verboseOpt of Some b \<Rightarrow> b | None \<Rightarrow> False)"
   "variables (gotoInitialise Omitted gthis) = Map.empty"
   "lockedVariables (gotoInitialise Omitted gthis) = {}"
   "verbose (gotoInitialise Omitted gthis) = False"
   "variables (gotoInitialise (Options None verboseOpt) gthis) = Map.empty"
   "lockedVariables (gotoInitialise (Options None verboseOpt) gthis) = {}"
   "variables (gotoInitialise (BareMap ThisVariables) gthis) = Map.empty"
   "lockedVariables (gotoInitialise (BareMap ThisVariables) gthis) = {}"
   "variables (gotoInitialise (Options (Some ThisVariables) verboseOpt) gthis) = Map.empty"
   "lockedVariables (gotoInitialise (Options (Some ThisVariables) verboseOpt) gthis) = {}"
    by (simp_all add: gotoInitialise_fields readOptions_def)
  have r: "evaluateRun prog options this =
     executeStatements (statements prog) (initialise options this)"
    "evaluateRun prog (BareMap mo) this = evaluateRun prog (Options (Some mo) (Some False)) this"
    "evaluateRun prog (BareMap mo) this = evaluateRun prog (Options (Some mo) None) this"
    "evaluateRun prog Omitted this = evaluateRun prog (Options None None) this"
    by (simp_all add: evaluateRun_def initialise_def readOptions_def applyInitialVariables_def)
  have g: "gotoEvaluateRun gprog (BareMap mo) gthis =
     gotoEvaluateRun gprog (Options (Some mo) (Some False)) gthis"
    "gotoEvaluateRun gprog (BareMap mo) gthis = gotoEvaluateRun gprog (Options (Some mo) None) gthis"
    "gotoEvaluateRun gprog Omitted gthis = gotoEvaluateRun gprog (Options None None) gthis"
    by (simp_all add: gotoEvaluateRun_def gotoInitialise_def readOptions_def)
  have e: "evaluate prog (BareMap mo) this = evaluate prog (Options (Some mo) verboseOpt) this"
    "evaluate prog Omitted this = evaluate prog (Options None verboseOpt) this"
    "evaluate prog Omitted this = evaluate prog (BareMap (NewMap [])) this"
    "evaluate prog Omitted this = evaluate prog (Options (Some (NewMap [])) verboseOpt) this"
    by (rule evaluate_sameStore, simp)+
  have ge: "gotoEvaluate gprog (BareMap mo) gthis =
      gotoEvaluate gprog (Options (Some mo) verboseOpt) gthis"
    "gotoEvaluate gprog Omitted gthis = gotoEvaluate gprog (Options None verboseOpt) gthis"
    "gotoEvaluate gprog Omitted gthis = gotoEvaluate gprog (BareMap (NewMap [])) gthis"
    "gotoEvaluate gprog Omitted gthis =
      gotoEvaluate gprog (Options (Some (NewMap [])) verboseOpt) gthis"
    by (rule gotoEvaluate_sameStore, simp)+
  have "evaluateExpression
      (this\<lparr>variables := Map.empty, lockedVariables := {}, verbose := False\<rparr>) e =
      evaluateExpression constructor e"
    by (rule evaluateExpression_variables) (simp add: constructor_def)
  then have p: "evaluate \<lparr>statements = [Assignment name e]\<rparr> (BareMap (NewMap [(name, v)])) this
     = Inr [name \<mapsto> v]"
    "evaluate \<lparr>statements = [Assignment name e]\<rparr> Omitted this
     = Inr [name \<mapsto> evaluateExpression constructor e]"
    by (simp_all add: evaluate_def evaluateRun_def initialise_def readOptions_def
        applyInitialVariables_def executeStatements.simps executeStatement.simps(1) Let_def)
  have "gotoEvaluateExpression
      (gthis\<lparr>variables := Map.empty, labelMap := Map.empty, lockedVariables := {},
             verbose := False\<rparr>) e =
      gotoEvaluateExpression gotoConstructor e"
    by (rule gotoEvaluateExpression_variables) (simp add: gotoConstructor_def)
  then have gp: "gotoEvaluate \<lparr>instructions = [\<lparr>label = None, statement = GAssignment name e\<rparr>]\<rparr>
     (BareMap (NewMap [(name, v)])) gthis = Inr [name \<mapsto> v]"
    "gotoEvaluate \<lparr>instructions = [\<lparr>label = None, statement = GAssignment name e\<rparr>]\<rparr>
     Omitted gthis = Inr [name \<mapsto> gotoEvaluateExpression gotoConstructor e]"
    by (simp_all add: gotoEvaluate_def gotoEvaluateRun_def gotoInitialise_def readOptions_def
        applyInitialVariables_def gotoLoop.simps gotoStep_def traceInstruction_def
        gotoAssignment_def Let_def)
  from w r e p gw g ge gp show ?thesis by (intro conjI)
qed

text \<open>
  C2 as stated fails for one caller-supplied mapping: the interpreter's own store. A
  call of \<^verbatim>\<open>evaluate\<close> returns \<^verbatim>\<open>this.variables\<close>; when the caller passes that \<^verbatim>\<open>Map\<close>,
  holding \<open>x0 = 1\<close>, to the next call on the same object, the call empties it before it
  reads it, and \<^verbatim>\<open>x1 := x0\<close> stores 0: \<open>x0\<close> has not kept its supplied value. A \<^verbatim>\<open>Map\<close>
  of the caller's making with the same entry pins \<open>x0\<close>. In the WHILE and in the GOTO
  interpreter.
\<close>

theorem write_once_locks_counterexample:
  "callEvaluate newObjects 0 (setX0 1) Omitted = Inr (newObjects(0 := afterSetX0 1), 0) \<and>
   readMap (newObjects(0 := afterSetX0 1)) 0 = [''x0'' \<mapsto> Finite 1] \<and>
   evaluate readX0 (BareMap ThisVariables) ((newObjects(0 := afterSetX0 1)) 0)
     = Inr [''x1'' \<mapsto> Finite 0] \<and>
   evaluate readX0 (BareMap (NewMap [(''x0'', Finite 1)])) ((newObjects(0 := afterSetX0 1)) 0)
     = Inr [''x0'' \<mapsto> Finite 1, ''x1'' \<mapsto> Finite 1] \<and>
   gotoCallEvaluate gotoNewObjects 0 (gotoSetX0 1) Omitted
     = Inr (gotoNewObjects(0 := gotoAfterSetX0 1), 0) \<and>
   readMap (gotoNewObjects(0 := gotoAfterSetX0 1)) 0 = [''x0'' \<mapsto> Finite 1] \<and>
   gotoEvaluate gotoReadX0 (BareMap ThisVariables) ((gotoNewObjects(0 := gotoAfterSetX0 1)) 0)
     = Inr [''x1'' \<mapsto> Finite 0] \<and>
   gotoEvaluate gotoReadX0 (BareMap (NewMap [(''x0'', Finite 1)]))
       ((gotoNewObjects(0 := gotoAfterSetX0 1)) 0)
     = Inr [''x0'' \<mapsto> Finite 1, ''x1'' \<mapsto> Finite 1]"
  by (simp add: callEvaluate_def evaluate_def evaluateRun_def initialise_def readOptions_def
      applyInitialVariables_def executeStatements.simps executeStatement.simps Let_def
      getVariableValue_def gotoGetVariableValue_def
      gotoCallEvaluate_def gotoEvaluate_def gotoEvaluateRun_def gotoInitialise_def
      gotoLoop.simps gotoStep_def traceInstruction_def gotoAssignment_def readMap_def
      newObjects_def gotoNewObjects_def constructor_def gotoConstructor_def fun_upd_twist)

text \<open>
  C2, as amended. Write-once locks, in the WHILE and in the GOTO interpreter. Every
  variable of a caller-supplied initial mapping other than the interpreter's own store
  starts with its supplied value and locked, and no other variable is locked; the
  interpreter's own store, passed as the initial mapping, pins nothing. An assignment
  to a locked variable leaves the store as it is and removes the lock; an assignment to
  an unlocked variable stores the value of the expression and leaves the locks as they
  are. A run that returns changes the store and the locks by the assignments it
  executes, in the order in which it executes them, and by nothing else (\<open>wexecs\<close>): a
  loop whose condition is false and a conditional without a branch to take leave both
  as they are, and so do the jumps and the \<^verbatim>\<open>HALT\<close> of GOTO and the building of its label
  map. So a pinned variable keeps its supplied value and its lock until the first
  assignment to it is executed, which releases the lock and stores nothing, and every
  later assignment to it stores its value. Over any run (\<open>lockStep\<close>) no lock is added
  and a variable still locked afterwards has the value it had before; a variable that no
  assignment of the statements targets (\<open>untouched\<close>) keeps its value and its lock.
\<close>

theorem write_once_locks:
  "(distinct (map fst m) \<and> (name, v) \<in> set m \<and>
      (options = BareMap (NewMap m) \<or> options = Options (Some (NewMap m)) verboseOpt) \<longrightarrow>
      variables (initialise options this0) name = Some v \<and>
      name \<in> lockedVariables (initialise options this0) \<and>
      variables (gotoInitialise options g0) name = Some v \<and>
      name \<in> lockedVariables (gotoInitialise options g0)) \<and>
   lockedVariables (initialise options' this0) = fst ` set (suppliedEntries options') \<and>
   lockedVariables (gotoInitialise options' g0) = fst ` set (suppliedEntries options') \<and>
   suppliedEntries (BareMap ThisVariables) = [] \<and>
   suppliedEntries (Options (Some ThisVariables) verboseOpt) = [] \<and>
   suppliedEntries (BareMap (NewMap m)) = m \<and>
   suppliedEntries (Options (Some (NewMap m)) verboseOpt) = m \<and>
   evaluateRun prog options' this0 =
     executeStatements (statements prog) (initialise options' this0) \<and>
   gotoEvaluateRun gprog options' g0 =
     (case buildLabelMap (instructions gprog) 0 (gotoInitialise options' g0) of
        Inl err \<Rightarrow> Inl err
      | Inr g \<Rightarrow> gotoLoop (instructions gprog) 0 0 g) \<and>
   (name1 \<in> lockedVariables this1 \<longrightarrow>
      (\<exists>this'. executeStatement (Assignment name1 e1) this1 = Inr this' \<and>
         variables this' = variables this1 \<and>
         lockedVariables this' = lockedVariables this1 - {name1})) \<and>
   (name2 \<notin> lockedVariables this2 \<longrightarrow>
      (\<exists>this'. executeStatement (Assignment name2 e2) this2 = Inr this' \<and>
         variables this' = (variables this2)(name2 \<mapsto> evaluateExpression this2 e2) \<and>
         lockedVariables this' = lockedVariables this2)) \<and>
   (executeStatements ss this3 = Inr this3' \<longrightarrow>
      wexecs ss (quiet this3) (quiet this3') \<and> lockStep this3 this3') \<and>
   (executeStatements ss this3 = Inr this3' \<and> name3 \<notin> assignedVariablesList ss \<longrightarrow>
      untouched name3 this3 this3') \<and>
   (\<not> evaluateCondition this4 c \<longrightarrow>
      (\<exists>this'. executeStatement (While c body) this4 = Inr this' \<and>
         variables this' = variables this4 \<and> lockedVariables this' = lockedVariables this4) \<and>
      (\<exists>this'. executeStatement (If c body None) this4 = Inr this' \<and>
         variables this' = variables this4 \<and> lockedVariables this' = lockedVariables this4)) \<and>
   (name1 \<in> lockedVariables g1 \<longrightarrow>
      variables (gotoAssignment name1 e1 g1) = variables g1 \<and>
      lockedVariables (gotoAssignment name1 e1 g1) = lockedVariables g1 - {name1}) \<and>
   (name2 \<notin> lockedVariables g2 \<longrightarrow>
      variables (gotoAssignment name2 e2 g2) =
        (variables g2)(name2 \<mapsto> gotoEvaluateExpression g2 e2) \<and>
      lockedVariables (gotoAssignment name2 e2 g2) = lockedVariables g2) \<and>
   (gotoStep instrs pc g3 = Next pc' g3' \<longrightarrow>
      (case statement (instrs ! pc) of
         GAssignment x e' \<Rightarrow>
           variables g3' = variables (gotoAssignment x e' g3) \<and>
           lockedVariables g3' = lockedVariables (gotoAssignment x e' g3)
       | _ \<Rightarrow> variables g3' = variables g3 \<and> lockedVariables g3' = lockedVariables g3) \<and>
      (pc < length instrs \<and> \<not> 1000000 < safetyCounter \<longrightarrow>
         gotoLoop instrs pc safetyCounter g3 = gotoLoop instrs pc' (safetyCounter + 1) g3')) \<and>
   (gotoStep instrs pc5 g5 = Return g5' \<longrightarrow>
      variables g5' = variables g5 \<and> lockedVariables g5' = lockedVariables g5 \<and>
      (pc5 < length instrs \<and> \<not> 1000000 < safetyCounter \<longrightarrow>
         gotoLoop instrs pc5 safetyCounter g5 = Inr g5')) \<and>
   (\<not> pc6 < length instrs \<longrightarrow> gotoLoop instrs pc6 safetyCounter g6 = Inr g6) \<and>
   (buildLabelMap instrs index g7 = Inr g7' \<longrightarrow>
      variables g7' = variables g7 \<and> lockedVariables g7' = lockedVariables g7) \<and>
   (gotoLoop instrs pc8 safetyCounter g8 = Inr g8' \<longrightarrow> lockStep g8 g8')"
proof -
  have init: "distinct (map fst m) \<and> (name, v) \<in> set m \<and>
      (options = BareMap (NewMap m) \<or> options = Options (Some (NewMap m)) verboseOpt) \<longrightarrow>
      variables (initialise options this0) name = Some v \<and>
      name \<in> lockedVariables (initialise options this0) \<and>
      variables (gotoInitialise options g0) name = Some v \<and>
      name \<in> lockedVariables (gotoInitialise options g0)"
  proof (intro impI, elim conjE)
    assume d: "distinct (map fst m)" and i: "(name, v) \<in> set m"
      and o: "options = BareMap (NewMap m) \<or> options = Options (Some (NewMap m)) verboseOpt"
    from d have "distinct (map fst (rev m))" by (simp add: rev_map [symmetric])
    with i have "map_of (rev m) name = Some v" by simp
    moreover from o have "suppliedEntries options = m" by auto
    moreover from i have "name \<in> fst ` set m" by force
    ultimately show "variables (initialise options this0) name = Some v \<and>
      name \<in> lockedVariables (initialise options this0) \<and>
      variables (gotoInitialise options g0) name = Some v \<and>
      name \<in> lockedVariables (gotoInitialise options g0)"
      by (simp add: initialise_fields gotoInitialise_fields)
  qed
  have locks: "lockedVariables (initialise options' this0) = fst ` set (suppliedEntries options')"
    "lockedVariables (gotoInitialise options' g0) = fst ` set (suppliedEntries options')"
    "suppliedEntries (BareMap ThisVariables) = []"
    "suppliedEntries (Options (Some ThisVariables) verboseOpt) = []"
    "suppliedEntries (BareMap (NewMap m)) = m"
    "suppliedEntries (Options (Some (NewMap m)) verboseOpt) = m"
    by (simp_all add: initialise_fields gotoInitialise_fields)
  have runs: "evaluateRun prog options' this0 =
     executeStatements (statements prog) (initialise options' this0)"
    "gotoEvaluateRun gprog options' g0 =
     (case buildLabelMap (instructions gprog) 0 (gotoInitialise options' g0) of
        Inl err \<Rightarrow> Inl err
      | Inr g \<Rightarrow> gotoLoop (instructions gprog) 0 0 g)"
    by (simp_all add: evaluateRun_def gotoEvaluateRun_def)
  have assign: "(name1 \<in> lockedVariables this1 \<longrightarrow>
      (\<exists>this'. executeStatement (Assignment name1 e1) this1 = Inr this' \<and>
         variables this' = variables this1 \<and>
         lockedVariables this' = lockedVariables this1 - {name1}))"
   "(name2 \<notin> lockedVariables this2 \<longrightarrow>
      (\<exists>this'. executeStatement (Assignment name2 e2) this2 = Inr this' \<and>
         variables this' = (variables this2)(name2 \<mapsto> evaluateExpression this2 e2) \<and>
         lockedVariables this' = lockedVariables this2))"
    by (simp_all add: executeStatement.simps Let_def)
  have ls: "executeStatements ss this3 = Inr this3' \<longrightarrow>
      wexecs ss (quiet this3) (quiet this3') \<and> lockStep this3 this3'"
    by (simp add: execute_lockStep execute_quiet)
  have unt: "executeStatements ss this3 = Inr this3' \<and> name3 \<notin> assignedVariablesList ss \<longrightarrow>
      untouched name3 this3 this3'"
    using execute_untouched(2) by blast
  have skip: "\<not> evaluateCondition this4 c \<longrightarrow>
      (\<exists>this'. executeStatement (While c body) this4 = Inr this' \<and>
         variables this' = variables this4 \<and> lockedVariables this' = lockedVariables this4) \<and>
      (\<exists>this'. executeStatement (If c body None) this4 = Inr this' \<and>
         variables this' = variables this4 \<and> lockedVariables this' = lockedVariables this4)"
  proof
    assume n: "\<not> evaluateCondition this4 c"
    let ?t = "if verbose this4
        then consoleLog (''  WHILE '' @ conditionToString c) this4 else this4"
    have "variables ?t = variables this4" by simp
    from evaluateCondition_variables [OF this] n have "\<not> evaluateCondition ?t c" by simp
    then have "\<exists>this'. executeStatement (While c body) this4 = Inr this' \<and>
         variables this' = variables this4 \<and> lockedVariables this' = lockedVariables this4"
      by (simp add: executeStatement.simps(2) Let_def whileLoop.simps [of c body 0 0 ?t])
    moreover from n have "\<exists>this'. executeStatement (If c body None) this4 = Inr this' \<and>
         variables this' = variables this4 \<and> lockedVariables this' = lockedVariables this4"
      by (simp add: executeStatement.simps(3) Let_def)
    ultimately show "(\<exists>this'. executeStatement (While c body) this4 = Inr this' \<and>
         variables this' = variables this4 \<and> lockedVariables this' = lockedVariables this4) \<and>
      (\<exists>this'. executeStatement (If c body None) this4 = Inr this' \<and>
         variables this' = variables this4 \<and> lockedVariables this' = lockedVariables this4)" ..
  qed
  have gassign: "name1 \<in> lockedVariables g1 \<longrightarrow>
      variables (gotoAssignment name1 e1 g1) = variables g1 \<and>
      lockedVariables (gotoAssignment name1 e1 g1) = lockedVariables g1 - {name1}"
    "name2 \<notin> lockedVariables g2 \<longrightarrow>
      variables (gotoAssignment name2 e2 g2) =
        (variables g2)(name2 \<mapsto> gotoEvaluateExpression g2 e2) \<and>
      lockedVariables (gotoAssignment name2 e2 g2) = lockedVariables g2"
    by (auto simp: gotoAssignment_def Let_def)
  have step: "gotoStep instrs pc g3 = Next pc' g3' \<longrightarrow>
      (case statement (instrs ! pc) of
         GAssignment x e' \<Rightarrow>
           variables g3' = variables (gotoAssignment x e' g3) \<and>
           lockedVariables g3' = lockedVariables (gotoAssignment x e' g3)
       | _ \<Rightarrow> variables g3' = variables g3 \<and> lockedVariables g3' = lockedVariables g3) \<and>
      (pc < length instrs \<and> \<not> 1000000 < safetyCounter \<longrightarrow>
         gotoLoop instrs pc safetyCounter g3 = gotoLoop instrs pc' (safetyCounter + 1) g3')"
  proof
    assume s: "gotoStep instrs pc g3 = Next pc' g3'"
    then have "case statement (instrs ! pc) of
         GAssignment x e' \<Rightarrow>
           variables g3' = variables (gotoAssignment x e' g3) \<and>
           lockedVariables g3' = lockedVariables (gotoAssignment x e' g3)
       | _ \<Rightarrow> variables g3' = variables g3 \<and> lockedVariables g3' = lockedVariables g3"
      by (auto simp: gotoStep_def Let_def gotoEvaluateExpression_variables
            [of "traceInstruction pc (instrs ! pc) g3" g3]
          split: gotoStatement.splits sum.splits if_splits)
    moreover from s have "pc < length instrs \<and> \<not> 1000000 < safetyCounter \<longrightarrow>
         gotoLoop instrs pc safetyCounter g3 = gotoLoop instrs pc' (safetyCounter + 1) g3'"
      by (simp add: gotoLoop.simps [of instrs pc safetyCounter])
    ultimately show "(case statement (instrs ! pc) of
         GAssignment x e' \<Rightarrow>
           variables g3' = variables (gotoAssignment x e' g3) \<and>
           lockedVariables g3' = lockedVariables (gotoAssignment x e' g3)
       | _ \<Rightarrow> variables g3' = variables g3 \<and> lockedVariables g3' = lockedVariables g3) \<and>
      (pc < length instrs \<and> \<not> 1000000 < safetyCounter \<longrightarrow>
         gotoLoop instrs pc safetyCounter g3 = gotoLoop instrs pc' (safetyCounter + 1) g3')" ..
  qed
  have ret: "gotoStep instrs pc5 g5 = Return g5' \<longrightarrow>
      variables g5' = variables g5 \<and> lockedVariables g5' = lockedVariables g5 \<and>
      (pc5 < length instrs \<and> \<not> 1000000 < safetyCounter \<longrightarrow>
         gotoLoop instrs pc5 safetyCounter g5 = Inr g5')"
    using gotoStep_Return(1,2) [of instrs pc5 g5 g5']
    by (simp add: gotoLoop.simps [of instrs pc5 safetyCounter])
  have past: "\<not> pc6 < length instrs \<longrightarrow> gotoLoop instrs pc6 safetyCounter g6 = Inr g6"
    by (simp add: gotoLoop.simps [of instrs pc6])
  have build: "buildLabelMap instrs index g7 = Inr g7' \<longrightarrow>
      variables g7' = variables g7 \<and> lockedVariables g7' = lockedVariables g7"
    using buildLabelMap_keeps by blast
  have gl: "gotoLoop instrs pc8 safetyCounter g8 = Inr g8' \<longrightarrow> lockStep g8 g8'"
    by (simp add: gotoLoop_lockStep)
  from init locks runs assign ls unt skip gassign step ret past build gl
  show ?thesis by (intro conjI)
qed

theorem write_once_locks_witness:
  "distinct (map fst [(''x0'', Finite 5)]) \<and> (''x0'', Finite 5) \<in> set [(''x0'', Finite 5)] \<and>
   variables (initialise (BareMap (NewMap [(''x0'', Finite 5)])) constructor) ''x0''
     = Some (Finite 5) \<and>
   ''x0'' \<in> lockedVariables (initialise (BareMap (NewMap [(''x0'', Finite 5)])) constructor) \<and>
   variables (gotoInitialise (BareMap (NewMap [(''x0'', Finite 5)])) gotoConstructor) ''x0''
     = Some (Finite 5) \<and>
   ''x0'' \<in> lockedVariables
     (gotoInitialise (BareMap (NewMap [(''x0'', Finite 5)])) gotoConstructor) \<and>
   lockedVariables (initialise (BareMap ThisVariables) (storeX0 5)) = {} \<and>
   lockedVariables (gotoInitialise (BareMap ThisVariables) (gotoStoreX0 5)) = {} \<and>
   ''x0'' \<in> lockedVariables pinnedX0 \<and>
   (\<exists>this'. executeStatement (Assignment ''x0'' (Number (Finite 7))) pinnedX0 = Inr this' \<and>
      variables this' = [''x0'' \<mapsto> Finite 5] \<and> lockedVariables this' = {}) \<and>
   ''x0'' \<notin> lockedVariables (storeX0 5) \<and>
   (\<exists>this'. executeStatement (Assignment ''x0'' (Number (Finite 9))) (storeX0 5) = Inr this' \<and>
      variables this' = [''x0'' \<mapsto> Finite 9] \<and> lockedVariables this' = {}) \<and>
   executeStatements loopThenTwice pinnedX0 = Inr (storeX0 9) \<and>
   wexecs loopThenTwice (quiet pinnedX0) (quiet (storeX0 9)) \<and>
   lockStep pinnedX0 (storeX0 9) \<and>
   ''x2'' \<notin> assignedVariablesList loopThenTwice \<and>
   untouched ''x2'' pinnedX0 (storeX0 9) \<and>
   \<not> evaluateCondition pinnedX0 (Condition (Variable ''x1'') Neq (Number (Finite 0))) \<and>
   (\<exists>this'. executeStatement (While (Condition (Variable ''x1'') Neq (Number (Finite 0)))
        [Assignment ''x0'' (Number (Finite 1))]) pinnedX0 = Inr this' \<and>
      variables this' = [''x0'' \<mapsto> Finite 5] \<and> lockedVariables this' = {''x0''}) \<and>
   (\<exists>this'. executeStatement (If (Condition (Variable ''x1'') Neq (Number (Finite 0)))
        [Assignment ''x0'' (Number (Finite 1))] None) pinnedX0 = Inr this' \<and>
      variables this' = [''x0'' \<mapsto> Finite 5] \<and> lockedVariables this' = {''x0''}) \<and>
   ''x0'' \<in> lockedVariables gotoPinnedX0 \<and>
   variables (gotoAssignment ''x0'' (Number (Finite 7)) gotoPinnedX0) = [''x0'' \<mapsto> Finite 5] \<and>
   lockedVariables (gotoAssignment ''x0'' (Number (Finite 7)) gotoPinnedX0) = {} \<and>
   ''x0'' \<notin> lockedVariables (gotoStoreX0 5) \<and>
   variables (gotoAssignment ''x0'' (Number (Finite 9)) (gotoStoreX0 5))
     = [''x0'' \<mapsto> Finite 9] \<and>
   lockedVariables (gotoAssignment ''x0'' (Number (Finite 9)) (gotoStoreX0 5)) = {} \<and>
   gotoStep gotoTwiceThenHalt 0 gotoPinnedX0 = Next 1 (gotoStoreX0 5) \<and>
   gotoLoop gotoTwiceThenHalt 0 0 gotoPinnedX0 = gotoLoop gotoTwiceThenHalt 1 1 (gotoStoreX0 5) \<and>
   gotoStep gotoTwiceThenHalt 2 (gotoStoreX0 9) = Return (gotoStoreX0 9) \<and>
   gotoLoop gotoTwiceThenHalt 2 0 (gotoStoreX0 9) = Inr (gotoStoreX0 9) \<and>
   \<not> 4 < length gotoTwiceThenHalt \<and>
   gotoLoop gotoTwiceThenHalt 4 0 gotoPinnedX0 = Inr gotoPinnedX0 \<and>
   buildLabelMap gotoTwiceThenHalt 0 gotoPinnedX0 = Inr gotoPinnedX0 \<and>
   gotoLoop gotoTwiceThenHalt 0 0 gotoPinnedX0 = Inr (gotoStoreX0 9) \<and>
   lockStep gotoPinnedX0 (gotoStoreX0 9)"
proof -
  have run: "executeStatements loopThenTwice pinnedX0 = Inr (storeX0 9)"
    by (simp add: executeStatements.simps executeStatement.simps whileLoop.simps Let_def
        getVariableValue_def)
  have step: "gotoStep gotoTwiceThenHalt 0 gotoPinnedX0 = Next 1 (gotoStoreX0 5)"
    by (simp add: gotoStep_def traceInstruction_def gotoAssignment_def)
  have halt: "gotoStep gotoTwiceThenHalt 2 (gotoStoreX0 9) = Return (gotoStoreX0 9)"
    by (simp add: gotoStep_def traceInstruction_def)
  have build: "buildLabelMap gotoTwiceThenHalt 0 gotoPinnedX0 = Inr gotoPinnedX0"
    by (simp add: buildLabelMap.simps)
  have grun: "gotoLoop gotoTwiceThenHalt 0 0 gotoPinnedX0 = Inr (gotoStoreX0 9)"
    by (simp add: gotoLoop.simps gotoStep_def traceInstruction_def gotoAssignment_def
        gotoGetVariableValue_def)
  show ?thesis
    using write_once_locks [where m = "[(''x0'', Finite 5)]" and name = "''x0''"
        and v = "Finite 5" and options = "BareMap (NewMap [(''x0'', Finite 5)])"
        and verboseOpt = None and ?this0.0 = "storeX0 5" and ?g0.0 = "gotoStoreX0 5"
        and options' = "BareMap ThisVariables"
        and prog = "\<lparr>statements = loopThenTwice\<rparr>"
        and gprog = "\<lparr>instructions = gotoTwiceThenHalt\<rparr>"
        and ?name1.0 = "''x0''" and ?this1.0 = pinnedX0 and ?e1.0 = "Number (Finite 7)"
        and ?name2.0 = "''x0''" and ?this2.0 = "storeX0 5" and ?e2.0 = "Number (Finite 9)"
        and ss = loopThenTwice and ?this3.0 = pinnedX0 and this3' = "storeX0 9"
        and ?name3.0 = "''x2''" and ?this4.0 = pinnedX0
        and c = "Condition (Variable ''x1'') Neq (Number (Finite 0))"
        and body = "[Assignment ''x0'' (Number (Finite 1))]"
        and ?g1.0 = gotoPinnedX0 and ?g2.0 = "gotoStoreX0 5"
        and instrs = gotoTwiceThenHalt and pc = 0 and ?g3.0 = gotoPinnedX0 and pc' = 1
        and g3' = "gotoStoreX0 5" and safetyCounter = 0
        and ?pc5.0 = 2 and ?g5.0 = "gotoStoreX0 9" and g5' = "gotoStoreX0 9"
        and ?pc6.0 = 4 and ?g6.0 = gotoPinnedX0
        and index = 0 and ?g7.0 = gotoPinnedX0 and g7' = gotoPinnedX0
        and ?pc8.0 = 0 and ?g8.0 = gotoPinnedX0 and g8' = "gotoStoreX0 9"]
      run step halt build grun
    by (simp add: initialise_fields gotoInitialise_fields getVariableValue_def)
qed

text \<open>
  C4, as amended. \<^verbatim>\<open>GotoInterpreter.evaluate\<close> throws in exactly three situations, each
  with its own message: a label occurs twice (thrown while the label map is built, before
  any instruction runs, with the first repeated label); or, the labels being distinct,
  the run reaches within its first 1,000,001 instructions a jump that is taken (a
  \<^verbatim>\<open>GOTO\<close>, or an \<^verbatim>\<open>IF\<close> whose condition holds) to a label no instruction carries; or
  the run is still inside the program after 1,000,001 instructions (the safety limit).
  So the two structural errors are raised exactly as the claim says, and the claim's
  "only if" holds for every error but the safety-limit one.
\<close>

theorem goto_errors:
  "gotoEvaluateRun prog options this = Inl err \<longleftrightarrow>
     (\<exists>l. firstDuplicate {} (registeredLabels (instructions prog)) = Some l \<and>
          err = Error (''Duplicate label: '' @ l))
   \<or> (\<exists>this4 n pc this' l.
         buildLabelMap (instructions prog) 0 (gotoInitialise options this) = Inr this4 \<and>
         gotoSteps n (instructions prog) 0 this4 = Some (pc, this') \<and> n \<le> 1000000 \<and>
         pc < length (instructions prog) \<and>
         jumpTarget (instructions prog) pc this' = Some l \<and>
         l \<notin> set (registeredLabels (instructions prog)) \<and>
         err = Error (''Undefined label: '' @ l))
   \<or> (\<exists>this4 n pc this'.
         buildLabelMap (instructions prog) 0 (gotoInitialise options this) = Inr this4 \<and>
         gotoSteps n (instructions prog) 0 this4 = Some (pc, this') \<and> 1000000 < n \<and>
         pc < length (instructions prog) \<and>
         err = stepLimitError)"
  (is "?lhs \<longleftrightarrow> ?dup \<or> ?undef \<or> ?limit")
proof -
  let ?instrs = "instructions prog"
  let ?init = "gotoInitialise options this"
  have empty: "dom (labelMap ?init) = {}" by (simp add: gotoInitialise_fields)
  show ?thesis
  proof (cases "firstDuplicate {} (registeredLabels ?instrs)")
    case (Some l)
    with empty have b: "buildLabelMap ?instrs 0 ?init = Inl (Error (''Duplicate label: '' @ l))"
      by (intro buildLabelMap_firstDuplicate) simp
    then have "?lhs \<longleftrightarrow> err = Error (''Duplicate label: '' @ l)"
      by (auto simp: gotoEvaluateRun_def)
    also from Some have "\<dots> \<longleftrightarrow> ?dup" by simp
    finally have 1: "?lhs \<longleftrightarrow> ?dup" .
    from b have 2: "\<not> ?undef" and 3: "\<not> ?limit" by simp_all
    from 1 2 3 show ?thesis by blast
  next
    case None
    then have d: "distinct (registeredLabels ?instrs)"
      "set (registeredLabels ?instrs) \<inter> dom (labelMap ?init) = {}"
      by (simp_all add: firstDuplicate_None empty)
    from buildLabelMap_ok [OF d, of 0] obtain this4 where
      b: "buildLabelMap ?instrs 0 ?init = Inr this4" and
      dm: "dom (labelMap this4) = dom (labelMap ?init) \<union> set (registeredLabels ?instrs)"
      by blast
    from dm empty have dom4: "dom (labelMap this4) = set (registeredLabels ?instrs)" by simp
    from b have run: "gotoEvaluateRun prog options this = gotoLoop ?instrs 0 0 this4"
      by (simp add: gotoEvaluateRun_def)
    have "?lhs \<longleftrightarrow> ?undef \<or> ?limit"
    proof
      assume ?lhs
      with run have "gotoLoop ?instrs 0 0 this4 = Inl err" by simp
      from gotoLoop_error [OF this] obtain n pc this' where
        n: "gotoSteps n ?instrs 0 this4 = Some (pc, this')" "pc < length ?instrs"
          "if 1000000 < 0 + n then err = stepLimitError else gotoStep ?instrs pc this' = Throw err"
        by blast
      show "?undef \<or> ?limit"
      proof (cases "1000000 < n")
        case True
        with n(3) have "err = stepLimitError" by simp
        with True n(1,2) b have ?limit by blast
        then show ?thesis ..
      next
        case False
        with n(3) have "gotoStep ?instrs pc this' = Throw err" by simp
        then obtain l where l: "jumpTarget ?instrs pc this' = Some l" "labelMap this' l = None"
          "err = Error (''Undefined label: '' @ l)"
          by (auto simp: gotoStep_Throw)
        from l(2) gotoSteps_labelMap [OF n(1)] have "l \<notin> dom (labelMap this4)"
          by (simp add: domIff)
        with dom4 have "l \<notin> set (registeredLabels ?instrs)" by simp
        moreover from False have "n \<le> 1000000" by simp
        ultimately have ?undef using l(1,3) n(1,2) b by blast
        then show ?thesis ..
      qed
    next
      assume "?undef \<or> ?limit"
      then show ?lhs
      proof
        assume ?undef
        then obtain this5 n pc this' l where
          b5: "buildLabelMap ?instrs 0 ?init = Inr this5" and
          n5: "gotoSteps n ?instrs 0 this5 = Some (pc, this')" "n \<le> 1000000"
            "pc < length ?instrs" "jumpTarget ?instrs pc this' = Some l"
            "l \<notin> set (registeredLabels ?instrs)" "err = Error (''Undefined label: '' @ l)"
          by blast
        from b b5 have "this5 = this4" by simp
        with n5 have
          n: "gotoSteps n ?instrs 0 this4 = Some (pc, this')" "n \<le> 1000000"
            "pc < length ?instrs" "jumpTarget ?instrs pc this' = Some l"
            "l \<notin> set (registeredLabels ?instrs)" "err = Error (''Undefined label: '' @ l)"
          by simp_all
        from n(5) dom4 have "l \<notin> dom (labelMap this4)" by simp
        with gotoSteps_labelMap [OF n(1)] have "labelMap this' l = None"
          by (simp add: domIff)
        with n(4,6) have "gotoStep ?instrs pc this' = Throw err" by (auto simp: gotoStep_Throw)
        from gotoLoop_throw [OF n(1) n(3) _ this, of 0] n(2) run show ?lhs by simp
      next
        assume ?limit
        then obtain this5 n pc this' where
          b5: "buildLabelMap ?instrs 0 ?init = Inr this5" and
          n5: "gotoSteps n ?instrs 0 this5 = Some (pc, this')" "1000000 < n"
            "pc < length ?instrs" "err = stepLimitError"
          by blast
        from b b5 have "this5 = this4" by simp
        with n5 have
          n: "gotoSteps n ?instrs 0 this4 = Some (pc, this')" "1000000 < n"
            "pc < length ?instrs" "err = stepLimitError"
          by simp_all
        from gotoLoop_limit [OF n(1) n(3), of 0] n(2,4) run show ?lhs by simp
      qed
    qed
    moreover from None have "\<not> ?dup" by simp
    ultimately show ?thesis by blast
  qed
qed

text \<open>
  C4 as stated fails: the program \<^verbatim>\<open>M1: GOTO M1\<close> has one label, no duplicate, and its
  only jump targets that label; its evaluation raises an error all the same.
\<close>

theorem goto_errors_counterexample:
  "gotoEvaluate \<lparr>instructions = selfLoop\<rparr> Omitted gotoConstructor = Inl stepLimitError \<and>
   registeredLabels selfLoop = [''M1''] \<and>
   firstDuplicate {} (registeredLabels selfLoop) = None \<and>
   map statement selfLoop = [Goto ''M1'']"
  by (simp add: selfLoop_limit registeredLabels_def)

text \<open>
  C5. Each \<^verbatim>\<open>while\<close> loop of the WHILE interpreter counts its iterations from 0 and the
  main loop of the GOTO interpreter counts its steps from 0; a loop whose condition still
  holds after 1,000,001 iterations, and a GOTO run that is still inside the program after
  1,000,001 steps, throw the error "Infinite loop detected (safety limit: 1,000,000
  iterations)" (for GOTO: "... steps)"). The error passes through the enclosing
  statement lists to the caller (\<open>Inl\<close>: no mapping is returned), it is the only error
  the WHILE interpreter ever raises, and it differs from both structural errors of the
  GOTO interpreter.
\<close>

theorem safety_limits:
  "(evaluateCondition this c \<and> 1000000 < safetyCounter \<longrightarrow>
      whileLoop c body safetyCounter iteration this = Inl loopLimitError) \<and>
   (whileIterations n c body iteration this = Some this' \<and> evaluateCondition this' c \<and>
      1000000 < startCounter + n \<longrightarrow>
      whileLoop c body startCounter iteration this = Inl loopLimitError) \<and>
   (whileIterations n c body 0
        (if verbose this then consoleLog (''  WHILE '' @ conditionToString c) this else this)
      = Some this' \<and> evaluateCondition this' c \<and> 1000000 < n \<longrightarrow>
      executeStatement (While c body) this = Inl loopLimitError) \<and>
   (executeStatement s this = Inl err \<longrightarrow> executeStatements (s # rest) this = Inl err) \<and>
   (executeStatements ss this = Inl err \<longrightarrow> err = loopLimitError) \<and>
   (evaluate prog options this = Inl err \<longrightarrow> err = loopLimitError) \<and>
   evaluate \<lparr>statements = [forever]\<rparr> options this = Inl loopLimitError \<and>
   (pc < length instrs \<and> 1000000 < safetyCounter \<longrightarrow>
      gotoLoop instrs pc safetyCounter g = Inl stepLimitError) \<and>
   (gotoSteps n instrs pc g = Some (pc', g') \<and> pc' < length instrs \<and>
      1000000 < startCounter + n \<longrightarrow>
      gotoLoop instrs pc startCounter g = Inl stepLimitError) \<and>
   gotoEvaluate \<lparr>instructions = selfLoop\<rparr> options g = Inl stepLimitError \<and>
   loopLimitError = Error ''Infinite loop detected (safety limit: 1,000,000 iterations)'' \<and>
   stepLimitError = Error ''Infinite loop detected (safety limit: 1,000,000 steps)'' \<and>
   loopLimitError \<noteq> Error (''Duplicate label: '' @ l) \<and>
   loopLimitError \<noteq> Error (''Undefined label: '' @ l) \<and>
   stepLimitError \<noteq> Error (''Duplicate label: '' @ l) \<and>
   stepLimitError \<noteq> Error (''Undefined label: '' @ l)"
proof -
  have 1: "evaluateCondition this c \<and> 1000000 < safetyCounter \<longrightarrow>
      whileLoop c body safetyCounter iteration this = Inl loopLimitError"
    by (simp add: whileLoop.simps [of c body safetyCounter])
  have 2: "whileIterations n c body iteration this = Some this' \<and> evaluateCondition this' c \<and>
      1000000 < startCounter + n \<longrightarrow>
      whileLoop c body startCounter iteration this = Inl loopLimitError"
    using whileLoop_limit by blast
  have 3: "whileIterations n c body 0
        (if verbose this then consoleLog (''  WHILE '' @ conditionToString c) this else this)
      = Some this' \<and> evaluateCondition this' c \<and> 1000000 < n \<longrightarrow>
      executeStatement (While c body) this = Inl loopLimitError"
    using whileLoop_limit [of n c body 0 _ this' 0]
    by (auto simp: executeStatement.simps(2) Let_def)
  have 4: "executeStatement s this = Inl err \<longrightarrow> executeStatements (s # rest) this = Inl err"
    by (simp add: executeStatements.simps)
  have 5: "executeStatements ss this = Inl err \<longrightarrow> err = loopLimitError"
    using execute_error(2) by blast
  have 6: "evaluate prog options this = Inl err \<longrightarrow> err = loopLimitError"
    using execute_error(2) [of "statements prog" "initialise options this"]
    by (cases "evaluateRun prog options this") (auto simp: evaluate_def evaluateRun_def)
  have 7: "evaluate \<lparr>statements = [forever]\<rparr> options this = Inl loopLimitError"
    by (simp add: evaluate_def evaluateRun_def executeStatements.simps forever_limit)
  have 8: "pc < length instrs \<and> 1000000 < safetyCounter \<longrightarrow>
      gotoLoop instrs pc safetyCounter g = Inl stepLimitError"
    by (simp add: gotoLoop.simps [of instrs pc])
  have 9: "gotoSteps n instrs pc g = Some (pc', g') \<and> pc' < length instrs \<and>
      1000000 < startCounter + n \<longrightarrow>
      gotoLoop instrs pc startCounter g = Inl stepLimitError"
    using gotoLoop_limit by blast
  have 10: "gotoEvaluate \<lparr>instructions = selfLoop\<rparr> options g = Inl stepLimitError"
    by (rule selfLoop_limit)
  have 11: "loopLimitError = Error ''Infinite loop detected (safety limit: 1,000,000 iterations)''"
    "stepLimitError = Error ''Infinite loop detected (safety limit: 1,000,000 steps)''"
    by (simp_all add: loopLimitError_def stepLimitError_def)
  have 12: "loopLimitError \<noteq> Error (''Duplicate label: '' @ l)"
    "loopLimitError \<noteq> Error (''Undefined label: '' @ l)"
    "stepLimitError \<noteq> Error (''Duplicate label: '' @ l)"
    "stepLimitError \<noteq> Error (''Undefined label: '' @ l)"
    by (fact stepLimitError_distinct)+
  from 1 2 3 4 5 6 7 8 9 10 11 12 show ?thesis by (intro conjI)
qed

theorem safety_limits_witness:
  "evaluateCondition constructor (Condition (Number (Finite 0)) Eq (Number (Finite 0))) \<and>
   (1000000 :: nat) < 1000001 \<and>
   whileLoop (Condition (Number (Finite 0)) Eq (Number (Finite 0))) [] 1000001 0 constructor = Inl loopLimitError \<and>
   whileIterations 1000001 (Condition (Number (Finite 0)) Eq (Number (Finite 0))) [] 0 constructor
     = Some constructor \<and>
   (1000000 :: nat) < 0 + 1000001 \<and>
   whileLoop (Condition (Number (Finite 0)) Eq (Number (Finite 0))) [] 0 0 constructor = Inl loopLimitError \<and>
   executeStatement forever constructor = Inl loopLimitError \<and>
   executeStatements [forever, Assignment ''x0'' (Number (Finite 1))] constructor = Inl loopLimitError \<and>
   executeStatements [forever] constructor = Inl loopLimitError \<and>
   evaluate \<lparr>statements = [forever]\<rparr> Omitted constructor = Inl loopLimitError \<and>
   (0 :: nat) < length selfLoop \<and>
   gotoLoop selfLoop 0 1000001 (gotoConstructor\<lparr>labelMap := [''M1'' \<mapsto> 0]\<rparr>)
     = Inl stepLimitError \<and>
   gotoSteps 1000001 selfLoop 0 (gotoConstructor\<lparr>labelMap := [''M1'' \<mapsto> 0]\<rparr>)
     = Some (0, gotoConstructor\<lparr>labelMap := [''M1'' \<mapsto> 0]\<rparr>) \<and>
   gotoLoop selfLoop 0 0 (gotoConstructor\<lparr>labelMap := [''M1'' \<mapsto> 0]\<rparr>)
     = Inl stepLimitError"
proof -
  have q: "\<not> verbose constructor" "\<not> verbose (gotoConstructor\<lparr>labelMap := [''M1'' \<mapsto> 0]\<rparr>)"
    "labelMap (gotoConstructor\<lparr>labelMap := [''M1'' \<mapsto> 0]\<rparr>) ''M1'' = Some 0"
    by (simp_all add: constructor_def gotoConstructor_def)
  note w = forever_iterations [OF q(1), of 1000001 0]
  note g = selfLoop_steps_quiet [OF q(3) q(2), of 1000001]
  have c: "evaluateCondition constructor (Condition (Number (Finite 0)) Eq (Number (Finite 0)))" by simp
  have e: "executeStatements [forever] constructor = Inl loopLimitError"
    by (simp add: executeStatements.simps forever_limit)
  from safety_limits [of constructor "Condition (Number (Finite 0)) Eq (Number (Finite 0))" 1000001 "[]" 0
      1000001 constructor 0 forever loopLimitError "[Assignment ''x0'' (Number (Finite 1))]" "[forever]"
      "\<lparr>statements = [forever]\<rparr>" Omitted 0 selfLoop
      "gotoConstructor\<lparr>labelMap := [''M1'' \<mapsto> 0]\<rparr>" 0
      "gotoConstructor\<lparr>labelMap := [''M1'' \<mapsto> 0]\<rparr>" "''M1''"] w g c q(1) e
  show ?thesis by (simp add: forever_limit)
qed

text \<open>
  C3, as amended. The GOTO interpreter builds the label map and starts the main loop
  with program counter 0; a label maps to the index of the instruction that carries it.
  One step of the loop: an assignment advances \<open>pc\<close> by 1, and it stores the value of its
  expression unless its variable is still locked, in which case it leaves the store as
  it is and releases the lock; \<^verbatim>\<open>GOTO l\<close> sets \<open>pc\<close> to the index of \<open>l\<close>;
  \<^verbatim>\<open>IF c THEN GOTO l\<close> sets \<open>pc\<close> to the index of \<open>l\<close> when \<open>c\<close> holds and advances \<open>pc\<close> by 1
  otherwise; \<^verbatim>\<open>HALT\<close> returns the current store at once, whatever instructions follow
  it; and with \<open>pc\<close> past the last instruction the loop returns the current store. Jumps
  and \<^verbatim>\<open>HALT\<close> leave the store and the locks as they are.
\<close>

theorem goto_stepping:
  "gotoEvaluateRun prog options this =
     (case buildLabelMap (instructions prog) 0 (gotoInitialise options this) of
        Inl err \<Rightarrow> Inl err
      | Inr this4 \<Rightarrow> gotoLoop (instructions prog) 0 0 this4) \<and>
   (buildLabelMap instrs 0 (gotoInitialise options this) = Inr this4 \<and>
      i < length instrs \<and> label (instrs ! i) = Some l0 \<and> l0 \<noteq> [] \<longrightarrow>
      labelMap this4 l0 = Some i) \<and>
   (pc < length instrs \<and> \<not> 1000000 < safetyCounter \<and> gotoStep instrs pc g = Next pc' g' \<longrightarrow>
      gotoLoop instrs pc safetyCounter g = gotoLoop instrs pc' (safetyCounter + 1) g') \<and>
   (statement (instrs ! pcA) = GAssignment x e \<longrightarrow>
      (\<exists>g'. gotoStep instrs pcA gA = Next (pcA + 1) g' \<and>
         lockedVariables g' = lockedVariables gA - {x} \<and>
         variables g' =
           (if x \<in> lockedVariables gA then variables gA
            else (variables gA)(x \<mapsto> gotoEvaluateExpression gA e)))) \<and>
   (statement (instrs ! pcG) = Goto l \<and> labelMap gG l = Some target \<longrightarrow>
      (\<exists>g'. gotoStep instrs pcG gG = Next target g' \<and>
         variables g' = variables gG \<and> lockedVariables g' = lockedVariables gG)) \<and>
   (statement (instrs ! pcT) = IfGoto c l' \<and> gotoEvaluateCondition gT c \<and>
      labelMap gT l' = Some target' \<longrightarrow>
      (\<exists>g'. gotoStep instrs pcT gT = Next target' g' \<and>
         variables g' = variables gT \<and> lockedVariables g' = lockedVariables gT)) \<and>
   (statement (instrs ! pcF) = IfGoto c' l'' \<and> \<not> gotoEvaluateCondition gF c' \<longrightarrow>
      (\<exists>g'. gotoStep instrs pcF gF = Next (pcF + 1) g' \<and>
         variables g' = variables gF \<and> lockedVariables g' = lockedVariables gF)) \<and>
   (statement (instrs ! pcH) = Halt \<longrightarrow>
      (\<exists>g'. gotoStep instrs pcH gH = Return g' \<and>
         variables g' = variables gH \<and> lockedVariables g' = lockedVariables gH)) \<and>
   (pcH < length instrs \<and> \<not> 1000000 < safetyCounter \<and> statement (instrs ! pcH) = Halt \<longrightarrow>
      map_sum id variables (gotoLoop instrs pcH safetyCounter gH) = Inr (variables gH)) \<and>
   (\<not> pcE < length instrs \<longrightarrow> gotoLoop instrs pcE safetyCounter gE = Inr gE)"
proof -
  have a: "gotoEvaluateRun prog options this =
     (case buildLabelMap (instructions prog) 0 (gotoInitialise options this) of
        Inl err \<Rightarrow> Inl err
      | Inr this4 \<Rightarrow> gotoLoop (instructions prog) 0 0 this4)"
    by (simp add: gotoEvaluateRun_def)
  have b: "buildLabelMap instrs 0 (gotoInitialise options this) = Inr this4 \<and>
      i < length instrs \<and> label (instrs ! i) = Some l0 \<and> l0 \<noteq> [] \<longrightarrow>
      labelMap this4 l0 = Some i"
  proof (intro impI, elim conjE)
    assume r: "buildLabelMap instrs 0 (gotoInitialise options this) = Inr this4"
      and i: "i < length instrs" "label (instrs ! i) = Some l0" "l0 \<noteq> []"
    have "firstDuplicate (dom (labelMap (gotoInitialise options this))) (registeredLabels instrs)
        = None"
    proof (cases "firstDuplicate (dom (labelMap (gotoInitialise options this)))
        (registeredLabels instrs)")
      case (Some d)
      from buildLabelMap_firstDuplicate [OF Some, of 0] r show ?thesis by simp
    qed simp
    then have "distinct (registeredLabels instrs)"
      "set (registeredLabels instrs) \<inter> dom (labelMap (gotoInitialise options this)) = {}"
      by (simp_all add: firstDuplicate_None)
    from buildLabelMap_ok [OF this, of 0] r i show "labelMap this4 l0 = Some i" by auto
  qed
  have c: "pc < length instrs \<and> \<not> 1000000 < safetyCounter \<and> gotoStep instrs pc g = Next pc' g' \<longrightarrow>
      gotoLoop instrs pc safetyCounter g = gotoLoop instrs pc' (safetyCounter + 1) g'"
    by (simp add: gotoLoop.simps [of instrs pc])
  have d: "statement (instrs ! pcA) = GAssignment x e \<longrightarrow>
      (\<exists>g'. gotoStep instrs pcA gA = Next (pcA + 1) g' \<and>
         lockedVariables g' = lockedVariables gA - {x} \<and>
         variables g' =
           (if x \<in> lockedVariables gA then variables gA
            else (variables gA)(x \<mapsto> gotoEvaluateExpression gA e)))"
    by (simp add: gotoStep_def Let_def
        gotoEvaluateExpression_variables [of "traceInstruction pcA (instrs ! pcA) gA" gA])
  have e: "statement (instrs ! pcG) = Goto l \<and> labelMap gG l = Some target \<longrightarrow>
      (\<exists>g'. gotoStep instrs pcG gG = Next target g' \<and>
         variables g' = variables gG \<and> lockedVariables g' = lockedVariables gG)"
    by (simp add: gotoStep_def Let_def getLabelIndex_def)
  have f: "statement (instrs ! pcT) = IfGoto c l' \<and> gotoEvaluateCondition gT c \<and>
      labelMap gT l' = Some target' \<longrightarrow>
      (\<exists>g'. gotoStep instrs pcT gT = Next target' g' \<and>
         variables g' = variables gT \<and> lockedVariables g' = lockedVariables gT)"
    by (simp add: gotoStep_def Let_def getLabelIndex_def
        gotoEvaluateCondition_variables [of "traceInstruction pcT (instrs ! pcT) gT" gT])
  have g: "statement (instrs ! pcF) = IfGoto c' l'' \<and> \<not> gotoEvaluateCondition gF c' \<longrightarrow>
      (\<exists>g'. gotoStep instrs pcF gF = Next (pcF + 1) g' \<and>
         variables g' = variables gF \<and> lockedVariables g' = lockedVariables gF)"
    by (simp add: gotoStep_def Let_def getLabelIndex_def
        gotoEvaluateCondition_variables [of "traceInstruction pcF (instrs ! pcF) gF" gF])
  have h: "statement (instrs ! pcH) = Halt \<longrightarrow>
      (\<exists>g'. gotoStep instrs pcH gH = Return g' \<and>
         variables g' = variables gH \<and> lockedVariables g' = lockedVariables gH)"
    by (simp add: gotoStep_def Let_def)
  have i: "pcH < length instrs \<and> \<not> 1000000 < safetyCounter \<and> statement (instrs ! pcH) = Halt \<longrightarrow>
      map_sum id variables (gotoLoop instrs pcH safetyCounter gH) = Inr (variables gH)"
    by (simp add: gotoLoop.simps [of instrs pcH] gotoStep_def Let_def)
  have j: "\<not> pcE < length instrs \<longrightarrow> gotoLoop instrs pcE safetyCounter gE = Inr gE"
    by (simp add: gotoLoop.simps [of instrs pcE])
  from a b c d e f g h i j show ?thesis by (intro conjI)
qed

text \<open>
  C3 as stated fails where it says that an executed assignment updates the store: with
  \<open>x0\<close> pinned to 5, executing \<^verbatim>\<open>x0 := 7\<close> advances \<open>pc\<close> and leaves \<open>x0 = 5\<close>.
\<close>

theorem goto_stepping_counterexample:
  "statement (gotoIncrementTwice ! 0) = GAssignment ''x0'' (Number (Finite 7)) \<and>
   gotoStep gotoIncrementTwice 0 gotoPinnedX0 =
     Next 1 \<lparr>variables = [''x0'' \<mapsto> Finite 5], lockedVariables = {}, verbose = False,
       console = [], labelMap = Map.empty\<rparr> \<and>
   variables gotoPinnedX0 = [''x0'' \<mapsto> Finite 5] \<and>
   gotoEvaluate \<lparr>instructions = [\<lparr>label = None, statement = GAssignment ''x0'' (Number (Finite 7))\<rparr>]\<rparr>
     (BareMap (NewMap [(''x0'', Finite 5)])) gotoConstructor = Inr [''x0'' \<mapsto> Finite 5]"
  by (simp add: gotoStep_def traceInstruction_def gotoAssignment_def gotoEvaluate_def
      gotoEvaluateRun_def gotoInitialise_def readOptions_def applyInitialVariables_def
      gotoConstructor_def gotoLoop.simps)

theorem goto_stepping_witness:
  "buildLabelMap countdown 0 (gotoInitialise Omitted gotoConstructor) =
     Inr (gotoConstructor\<lparr>labelMap := [''M1'' \<mapsto> Suc 0, ''M2'' \<mapsto> 4]\<rparr>) \<and>
   (4 :: nat) < length countdown \<and> label (countdown ! 4) = Some ''M2'' \<and> ''M2'' \<noteq> [] \<and>
   labelMap (gotoConstructor\<lparr>labelMap := [''M1'' \<mapsto> Suc 0, ''M2'' \<mapsto> 4]\<rparr>) ''M2'' = Some 4 \<and>
   (3 :: nat) < length countdown \<and> \<not> (1000000 :: nat) < 0 \<and>
   gotoStep countdown 3 (countdownAt 4) = Next 1 (countdownAt 4) \<and>
   gotoLoop countdown 3 0 (countdownAt 4) = gotoLoop countdown 1 (0 + 1) (countdownAt 4) \<and>
   statement (countdown ! 2) = GAssignment ''x0'' (BinaryOp (Variable ''x0'') Minus (Number (Finite 1))) \<and>
   gotoStep countdown 2 (countdownAt 5) = Next 3 (countdownAt 4) \<and>
   statement (countdown ! 3) = Goto ''M1'' \<and> labelMap (countdownAt 4) ''M1'' = Some 1 \<and>
   statement (countdown ! 1) = IfGoto (Condition (Variable ''x0'') Eq (Number (Finite 0))) ''M2'' \<and>
   gotoEvaluateCondition (countdownAt 0) (Condition (Variable ''x0'') Eq (Number (Finite 0))) \<and>
   labelMap (countdownAt 0) ''M2'' = Some 4 \<and>
   gotoStep countdown 1 (countdownAt 0) = Next 4 (countdownAt 0) \<and>
   \<not> gotoEvaluateCondition (countdownAt 5) (Condition (Variable ''x0'') Eq (Number (Finite 0))) \<and>
   gotoStep countdown 1 (countdownAt 5) = Next 2 (countdownAt 5) \<and>
   statement (countdown ! 4) = Halt \<and>
   gotoStep countdown 4 (countdownAt 0) = Return (countdownAt 0) \<and>
   map_sum id variables (gotoLoop countdown 4 0 (countdownAt 0)) = Inr [''x0'' \<mapsto> Finite 0] \<and>
   \<not> (5 :: nat) < length countdown \<and>
   gotoLoop countdown 5 0 (countdownAt 0) = Inr (countdownAt 0) \<and>
   gotoEvaluate \<lparr>instructions = countdown\<rparr> Omitted gotoConstructor = Inr [''x0'' \<mapsto> Finite 0]"
proof -
  have b: "buildLabelMap countdown 0 (gotoInitialise Omitted gotoConstructor) =
     Inr (gotoConstructor\<lparr>labelMap := [''M1'' \<mapsto> Suc 0, ''M2'' \<mapsto> 4]\<rparr>)"
    by (simp add: gotoInitialise_def readOptions_def applyInitialVariables_def
        gotoConstructor_def eval_nat_numeral)
  have s: "gotoStep countdown 3 (countdownAt v) = Next 1 (countdownAt v)"
    "gotoStep countdown 2 (countdownAt 5) = Next 3 (countdownAt 4)"
    "gotoStep countdown 1 (countdownAt 0) = Next 4 (countdownAt 0)"
    "gotoStep countdown 1 (countdownAt 5) = Next 2 (countdownAt 5)"
    "gotoStep countdown 4 (countdownAt 0) = Return (countdownAt 0)"
    for v
    by (simp_all add: gotoStep_def traceInstruction_def gotoAssignment_def getLabelIndex_def
        gotoGetVariableValue_def)
  have run: "gotoLoop countdown 0 0 (gotoConstructor\<lparr>labelMap := [''M1'' \<mapsto> Suc 0, ''M2'' \<mapsto> 4]\<rparr>)
      = Inr (countdownAt 0)"
    by (simp add: gotoLoop.simps gotoStep_def traceInstruction_def gotoAssignment_def
        getLabelIndex_def gotoGetVariableValue_def gotoConstructor_def)
  have ev: "gotoEvaluate \<lparr>instructions = countdown\<rparr> Omitted gotoConstructor = Inr [''x0'' \<mapsto> Finite 0]"
    by (simp add: gotoEvaluate_def gotoEvaluateRun_def b run del: buildLabelMap.simps)
  from goto_stepping [where prog = "\<lparr>instructions = countdown\<rparr>" and options = Omitted
      and this = gotoConstructor and instrs = countdown
      and ?this4.0 = "gotoConstructor\<lparr>labelMap := [''M1'' \<mapsto> Suc 0, ''M2'' \<mapsto> 4]\<rparr>"
      and i = 4 and ?l0.0 = "''M2''" and pc = 3 and safetyCounter = 0 and g = "countdownAt 4"
      and pc' = 1 and g' = "countdownAt 4" and pcA = 2 and x = "''x0''"
      and e = "BinaryOp (Variable ''x0'') Minus (Number (Finite 1))" and gA = "countdownAt 5"
      and pcG = 3 and l = "''M1''" and gG = "countdownAt 4" and target = 1
      and pcT = 1 and c = "Condition (Variable ''x0'') Eq (Number (Finite 0))" and l' = "''M2''"
      and gT = "countdownAt 0" and target' = 4
      and pcF = 1 and c' = "Condition (Variable ''x0'') Eq (Number (Finite 0))" and l'' = "''M2''"
      and gF = "countdownAt 5" and pcH = 4 and gH = "countdownAt 0"
      and pcE = 5 and gE = "countdownAt 0"] b s ev
  show ?thesis by (simp add: gotoGetVariableValue_def del: buildLabelMap.simps)
qed

text \<open>
  C7 as stated fails: two successive calls on the same interpreter object return the
  same \<^verbatim>\<open>Map\<close> object, so the mapping the first call returned (\<open>x0 = 1\<close>) reads \<open>x0 = 2\<close>
  after the second call. In the WHILE and in the GOTO interpreter.
\<close>

theorem evaluate_isolation_counterexample:
  "callEvaluate newObjects 0 (setX0 1) Omitted = Inr (newObjects(0 := afterSetX0 1), 0) \<and>
   readMap (newObjects(0 := afterSetX0 1)) 0 = [''x0'' \<mapsto> Finite 1] \<and>
   callEvaluate (newObjects(0 := afterSetX0 1)) 0 (setX0 2) Omitted
     = Inr (newObjects(0 := afterSetX0 2), 0) \<and>
   readMap (newObjects(0 := afterSetX0 2)) 0 = [''x0'' \<mapsto> Finite 2] \<and>
   gotoCallEvaluate gotoNewObjects 0 (gotoSetX0 1) Omitted
     = Inr (gotoNewObjects(0 := gotoAfterSetX0 1), 0) \<and>
   readMap (gotoNewObjects(0 := gotoAfterSetX0 1)) 0 = [''x0'' \<mapsto> Finite 1] \<and>
   gotoCallEvaluate (gotoNewObjects(0 := gotoAfterSetX0 1)) 0 (gotoSetX0 2) Omitted
     = Inr (gotoNewObjects(0 := gotoAfterSetX0 2), 0) \<and>
   readMap (gotoNewObjects(0 := gotoAfterSetX0 2)) 0 = [''x0'' \<mapsto> Finite 2]"
  by (simp add: callEvaluate_def evaluateRun_def initialise_def readOptions_def
      applyInitialVariables_def executeStatements.simps executeStatement.simps Let_def
      gotoCallEvaluate_def gotoEvaluateRun_def gotoInitialise_def gotoLoop.simps gotoStep_def
      traceInstruction_def gotoAssignment_def readMap_def newObjects_def
      gotoNewObjects_def constructor_def gotoConstructor_def)

text \<open>
  C7, as amended. The outcome of \<^verbatim>\<open>evaluate\<close> (the entries of the returned mapping, or
  the error) is the same whatever fields the object had before the call: the call
  starts by clearing the store, the locks and (GOTO) the label map and by setting
  \<^verbatim>\<open>verbose\<close>. The store is not constructed per call: it is the object's own \<^verbatim>\<open>Map\<close>,
  the same one at every call, and the call returns it by reference. So after a second
  call on the same object the mapping returned by the first call holds the second
  call's result; and when the caller passes the returned \<^verbatim>\<open>Map\<close> back as the initial
  variables of a call on the same object, the call has emptied it before it reads it,
  and runs as with no initial variables. Calls on another object leave the mapping as
  it is.
\<close>

theorem evaluate_isolation:
  "evaluate prog options this = evaluate prog options this' \<and>
   gotoEvaluate gprog options g = gotoEvaluate gprog options g' \<and>
   variables (initialise options this) = variables (initialise options this') \<and>
   lockedVariables (initialise options this) = lockedVariables (initialise options this') \<and>
   verbose (initialise options this) = verbose (initialise options this') \<and>
   variables (gotoInitialise options g) = variables (gotoInitialise options g') \<and>
   lockedVariables (gotoInitialise options g) = lockedVariables (gotoInitialise options g') \<and>
   verbose (gotoInitialise options g) = verbose (gotoInitialise options g') \<and>
   labelMap (gotoInitialise options g) = Map.empty \<and>
   evaluate prog (BareMap ThisVariables) this = evaluate prog Omitted this' \<and>
   evaluate prog (Options (Some ThisVariables) verboseOpt) this
     = evaluate prog (Options None verboseOpt) this' \<and>
   gotoEvaluate gprog (BareMap ThisVariables) g = gotoEvaluate gprog Omitted g' \<and>
   gotoEvaluate gprog (Options (Some ThisVariables) verboseOpt) g
     = gotoEvaluate gprog (Options None verboseOpt) g' \<and>
   (callEvaluate heap obj prog options = Inr (heap1, ref1) \<longrightarrow>
      ref1 = obj \<and> evaluate prog options (heap obj) = Inr (readMap heap1 ref1) \<and>
      (\<forall>other. other \<noteq> obj \<longrightarrow> heap1 other = heap other)) \<and>
   (callEvaluate heap obj prog options = Inr (heap1, ref1) \<and>
    callEvaluate heap1 obj prog2 options2 = Inr (heap2, ref2) \<longrightarrow>
      ref2 = ref1 \<and> evaluate prog2 options2 this = Inr (readMap heap2 ref1)) \<and>
   (callEvaluate heap obj prog options = Inr (heap1, ref1) \<and> obj2 \<noteq> obj \<and>
    callEvaluate heap1 obj2 prog2 options2 = Inr (heap3, ref3) \<longrightarrow>
      readMap heap3 ref1 = readMap heap1 ref1) \<and>
   (gotoCallEvaluate gheap obj gprog options = Inr (gheap1, ref1) \<longrightarrow>
      ref1 = obj \<and> gotoEvaluate gprog options (gheap obj) = Inr (readMap gheap1 ref1) \<and>
      (\<forall>other. other \<noteq> obj \<longrightarrow> gheap1 other = gheap other)) \<and>
   (gotoCallEvaluate gheap obj gprog options = Inr (gheap1, ref1) \<and>
    gotoCallEvaluate gheap1 obj gprog2 options2 = Inr (gheap2, ref2) \<longrightarrow>
      ref2 = ref1 \<and> gotoEvaluate gprog2 options2 g = Inr (readMap gheap2 ref1)) \<and>
   (gotoCallEvaluate gheap obj gprog options = Inr (gheap1, ref1) \<and> obj2 \<noteq> obj \<and>
    gotoCallEvaluate gheap1 obj2 gprog2 options2 = Inr (gheap3, ref3) \<longrightarrow>
      readMap gheap3 ref1 = readMap gheap1 ref1)"
proof -
  have e: "\<And>prog options this this'. evaluate prog options this = evaluate prog options this'"
    by (rule evaluate_sameStore) (simp add: readOptions_def split: evalArg.splits)
  have ge: "\<And>gprog options g g'. gotoEvaluate gprog options g = gotoEvaluate gprog options g'"
    by (rule gotoEvaluate_sameStore) (simp add: readOptions_def split: evalArg.splits)
  have 1: "evaluate prog options this = evaluate prog options this'" by (rule e)
  have 2: "gotoEvaluate gprog options g = gotoEvaluate gprog options g'" by (rule ge)
  have 3: "variables (initialise options this) = variables (initialise options this')"
    "lockedVariables (initialise options this) = lockedVariables (initialise options this')"
    "verbose (initialise options this) = verbose (initialise options this')"
    by (simp_all add: initialise_fields readOptions_def split: evalArg.splits)
  have 4: "variables (gotoInitialise options g) = variables (gotoInitialise options g')"
    "lockedVariables (gotoInitialise options g) = lockedVariables (gotoInitialise options g')"
    "verbose (gotoInitialise options g) = verbose (gotoInitialise options g')"
    "labelMap (gotoInitialise options g) = Map.empty"
    by (simp_all add: gotoInitialise_fields readOptions_def split: evalArg.splits)
  have i: "\<And>this. initialise (BareMap ThisVariables) this = initialise Omitted this"
    "\<And>this. initialise (Options (Some ThisVariables) verboseOpt) this
       = initialise (Options None verboseOpt) this"
    "\<And>g. gotoInitialise (BareMap ThisVariables) g = gotoInitialise Omitted g"
    "\<And>g. gotoInitialise (Options (Some ThisVariables) verboseOpt) g
       = gotoInitialise (Options None verboseOpt) g"
    by (simp_all add: initialise_def gotoInitialise_def readOptions_def
        applyInitialVariables_def)
  have "evaluate prog (BareMap ThisVariables) this = evaluate prog Omitted this"
    "evaluate prog (Options (Some ThisVariables) verboseOpt) this
       = evaluate prog (Options None verboseOpt) this"
    "gotoEvaluate gprog (BareMap ThisVariables) g = gotoEvaluate gprog Omitted g"
    "gotoEvaluate gprog (Options (Some ThisVariables) verboseOpt) g
       = gotoEvaluate gprog (Options None verboseOpt) g"
    by (simp_all add: evaluate_def evaluateRun_def gotoEvaluate_def gotoEvaluateRun_def i)
  then have own: "evaluate prog (BareMap ThisVariables) this = evaluate prog Omitted this'"
    "evaluate prog (Options (Some ThisVariables) verboseOpt) this
       = evaluate prog (Options None verboseOpt) this'"
    "gotoEvaluate gprog (BareMap ThisVariables) g = gotoEvaluate gprog Omitted g'"
    "gotoEvaluate gprog (Options (Some ThisVariables) verboseOpt) g
       = gotoEvaluate gprog (Options None verboseOpt) g'"
    using e [of prog Omitted this this'] e [of prog "Options None verboseOpt" this this']
      ge [of gprog Omitted g g'] ge [of gprog "Options None verboseOpt" g g']
    by simp_all
  have 5: "callEvaluate heap obj prog options = Inr (heap1, ref1) \<longrightarrow>
      ref1 = obj \<and> evaluate prog options (heap obj) = Inr (readMap heap1 ref1) \<and>
      (\<forall>other. other \<noteq> obj \<longrightarrow> heap1 other = heap other)"
    by (auto simp: callEvaluate_def evaluate_def readMap_def split: sum.splits)
  have 6: "callEvaluate heap obj prog options = Inr (heap1, ref1) \<and>
    callEvaluate heap1 obj prog2 options2 = Inr (heap2, ref2) \<longrightarrow>
      ref2 = ref1 \<and> evaluate prog2 options2 this = Inr (readMap heap2 ref1)"
    using e [of prog2 options2 this "heap1 obj"]
    by (auto simp: callEvaluate_def evaluate_def readMap_def split: sum.splits)
  have 7: "callEvaluate heap obj prog options = Inr (heap1, ref1) \<and> obj2 \<noteq> obj \<and>
    callEvaluate heap1 obj2 prog2 options2 = Inr (heap3, ref3) \<longrightarrow>
      readMap heap3 ref1 = readMap heap1 ref1"
    by (auto simp: callEvaluate_def readMap_def split: sum.splits)
  have 8: "gotoCallEvaluate gheap obj gprog options = Inr (gheap1, ref1) \<longrightarrow>
      ref1 = obj \<and> gotoEvaluate gprog options (gheap obj) = Inr (readMap gheap1 ref1) \<and>
      (\<forall>other. other \<noteq> obj \<longrightarrow> gheap1 other = gheap other)"
    by (auto simp: gotoCallEvaluate_def gotoEvaluate_def readMap_def split: sum.splits)
  have 9: "gotoCallEvaluate gheap obj gprog options = Inr (gheap1, ref1) \<and>
    gotoCallEvaluate gheap1 obj gprog2 options2 = Inr (gheap2, ref2) \<longrightarrow>
      ref2 = ref1 \<and> gotoEvaluate gprog2 options2 g = Inr (readMap gheap2 ref1)"
    using ge [of gprog2 options2 g "gheap1 obj"]
    by (auto simp: gotoCallEvaluate_def gotoEvaluate_def readMap_def split: sum.splits)
  have 10: "gotoCallEvaluate gheap obj gprog options = Inr (gheap1, ref1) \<and> obj2 \<noteq> obj \<and>
    gotoCallEvaluate gheap1 obj2 gprog2 options2 = Inr (gheap3, ref3) \<longrightarrow>
      readMap gheap3 ref1 = readMap gheap1 ref1"
    by (auto simp: gotoCallEvaluate_def readMap_def split: sum.splits)
  from 1 2 3 4 own 5 6 7 8 9 10 show ?thesis by (intro conjI)
qed

theorem evaluate_isolation_witness:
  "callEvaluate newObjects 0 (setX0 1) Omitted = Inr (newObjects(0 := afterSetX0 1), 0) \<and>
   evaluate (setX0 1) Omitted (newObjects 0) = Inr (readMap (newObjects(0 := afterSetX0 1)) 0) \<and>
   callEvaluate (newObjects(0 := afterSetX0 1)) 0 readX0 (BareMap ThisVariables)
     = Inr (newObjects(0 := afterReadX0), 0) \<and>
   evaluate readX0 (BareMap ThisVariables) constructor
     = Inr (readMap (newObjects(0 := afterReadX0)) 0) \<and>
   readMap (newObjects(0 := afterReadX0)) 0 = [''x1'' \<mapsto> Finite 0] \<and>
   (1 :: nat) \<noteq> 0 \<and>
   callEvaluate (newObjects(0 := afterSetX0 1)) 1 readX0 (BareMap ThisVariables)
     = Inr (newObjects(0 := afterSetX0 1, 1 := afterReadX0), 1) \<and>
   readMap (newObjects(0 := afterSetX0 1, 1 := afterReadX0)) 0
     = readMap (newObjects(0 := afterSetX0 1)) 0 \<and>
   gotoCallEvaluate gotoNewObjects 0 (gotoSetX0 1) Omitted
     = Inr (gotoNewObjects(0 := gotoAfterSetX0 1), 0) \<and>
   gotoEvaluate (gotoSetX0 1) Omitted (gotoNewObjects 0)
     = Inr (readMap (gotoNewObjects(0 := gotoAfterSetX0 1)) 0) \<and>
   gotoCallEvaluate (gotoNewObjects(0 := gotoAfterSetX0 1)) 0 gotoReadX0 (BareMap ThisVariables)
     = Inr (gotoNewObjects(0 := gotoAfterReadX0), 0) \<and>
   gotoEvaluate gotoReadX0 (BareMap ThisVariables) gotoConstructor
     = Inr (readMap (gotoNewObjects(0 := gotoAfterReadX0)) 0) \<and>
   readMap (gotoNewObjects(0 := gotoAfterReadX0)) 0 = [''x1'' \<mapsto> Finite 0] \<and>
   gotoCallEvaluate (gotoNewObjects(0 := gotoAfterSetX0 1)) 1 gotoReadX0 (BareMap ThisVariables)
     = Inr (gotoNewObjects(0 := gotoAfterSetX0 1, 1 := gotoAfterReadX0), 1) \<and>
   readMap (gotoNewObjects(0 := gotoAfterSetX0 1, 1 := gotoAfterReadX0)) 0
     = readMap (gotoNewObjects(0 := gotoAfterSetX0 1)) 0"
proof -
  have c: "callEvaluate newObjects 0 (setX0 1) Omitted = Inr (newObjects(0 := afterSetX0 1), 0)"
    "callEvaluate (newObjects(0 := afterSetX0 1)) 0 readX0 (BareMap ThisVariables)
       = Inr (newObjects(0 := afterReadX0), 0)"
    "callEvaluate (newObjects(0 := afterSetX0 1)) 1 readX0 (BareMap ThisVariables)
       = Inr (newObjects(0 := afterSetX0 1, 1 := afterReadX0), 1)"
    by (simp_all add: callEvaluate_def evaluateRun_def initialise_def readOptions_def
      applyInitialVariables_def executeStatements.simps executeStatement.simps Let_def
      getVariableValue_def newObjects_def constructor_def)
  have g: "gotoCallEvaluate gotoNewObjects 0 (gotoSetX0 1) Omitted
       = Inr (gotoNewObjects(0 := gotoAfterSetX0 1), 0)"
    "gotoCallEvaluate (gotoNewObjects(0 := gotoAfterSetX0 1)) 0 gotoReadX0 (BareMap ThisVariables)
       = Inr (gotoNewObjects(0 := gotoAfterReadX0), 0)"
    "gotoCallEvaluate (gotoNewObjects(0 := gotoAfterSetX0 1)) 1 gotoReadX0 (BareMap ThisVariables)
       = Inr (gotoNewObjects(0 := gotoAfterSetX0 1, 1 := gotoAfterReadX0), 1)"
    by (simp_all add: gotoCallEvaluate_def gotoEvaluateRun_def gotoInitialise_def
      readOptions_def applyInitialVariables_def gotoLoop.simps gotoStep_def
      traceInstruction_def gotoAssignment_def Let_def gotoGetVariableValue_def
      gotoNewObjects_def gotoConstructor_def)
  from evaluate_isolation [where heap = newObjects and obj = 0 and prog = "setX0 1"
      and options = Omitted and ?heap1.0 = "newObjects(0 := afterSetX0 1)" and ?ref1.0 = 0
      and ?prog2.0 = readX0 and ?options2.0 = "BareMap ThisVariables"
      and ?heap2.0 = "newObjects(0 := afterReadX0)" and ?ref2.0 = 0 and this = constructor
      and ?obj2.0 = 1 and ?heap3.0 = "newObjects(0 := afterSetX0 1, 1 := afterReadX0)"
      and ?ref3.0 = 1
      and gheap = gotoNewObjects and gprog = "gotoSetX0 1"
      and ?gheap1.0 = "gotoNewObjects(0 := gotoAfterSetX0 1)"
      and ?gprog2.0 = gotoReadX0 and ?gheap2.0 = "gotoNewObjects(0 := gotoAfterReadX0)"
      and g = gotoConstructor and this' = constructor and g' = gotoConstructor
      and verboseOpt = None
      and ?gheap3.0 = "gotoNewObjects(0 := gotoAfterSetX0 1, 1 := gotoAfterReadX0)"] c g
  show ?thesis by (simp add: readMap_def)
qed

text \<open>
  C8. Every call of the WHILE and of the GOTO interpreter terminates. The recursion of
  \<open>executeStatement\<close>, \<open>executeStatements\<close>, \<open>whileLoop\<close> and of \<open>gotoLoop\<close> follows the
  calls and loop iterations of the source one to one; \<open>..._dom\<close> is the set of arguments
  from which every chain of such calls is finite (the accessible part of the call
  relation that the function definitions generate), and it holds every argument: a
  statement calls only smaller statements, and a loop iteration calls the next one with a
  larger safety counter, which stops at 1,000,001. Expression and condition evaluation
  are structural recursions over the syntax tree. The outcome is a mapping or an error.
\<close>

theorem evaluators_terminate:
  "executeStatement_executeStatements_whileLoop_dom (Inl (s, this)) \<and>
   executeStatement_executeStatements_whileLoop_dom (Inr (Inl (ss, this))) \<and>
   executeStatement_executeStatements_whileLoop_dom
     (Inr (Inr (c, body, safetyCounter, iteration, this))) \<and>
   gotoLoop_dom (instrs, pc, safetyCounter, g) \<and>
   ((\<exists>m. evaluate prog options this = Inr m) \<or>
    evaluate prog options this = Inl loopLimitError) \<and>
   ((\<exists>m. gotoEvaluate gprog options g = Inr m) \<or>
    (\<exists>err. gotoEvaluate gprog options g = Inl err))"
proof -
  have "(\<exists>m. evaluate prog options this = Inr m) \<or>
    evaluate prog options this = Inl loopLimitError"
    using execute_error(2) [of "statements prog" "initialise options this"]
    by (cases "evaluateRun prog options this") (auto simp: evaluate_def evaluateRun_def)
  moreover have "(\<exists>m. gotoEvaluate gprog options g = Inr m) \<or>
    (\<exists>err. gotoEvaluate gprog options g = Inl err)"
    by (cases "gotoEvaluate gprog options g") auto
  ultimately show ?thesis
    using while_calls_wellfounded goto_calls_wellfounded by blast
qed

end
